theory Spec2Isabelle
  imports Main "HOL-Library.Char_ord" "HOL-Library.List_Lexorder"
begin

section \<open>Python values and exceptions\<close>

text \<open>
  The module is Python 2 (\<open>iteritems\<close>, list-valued \<open>values()\<close>). Strings are byte
  strings, compared lexicographically byte by byte, a proper prefix being smaller: this is
  the order of \<open>char list\<close> given by \<open>Char_ord\<close> and \<open>List_Lexorder\<close>.

  A keyword dictionary \<open>**kwargs\<close> is an association list whose keys are distinct; the
  order of the list is the (arbitrary) iteration order of the dictionary.
\<close>

type_synonym 'v kwargs = "(string \<times> 'v) list"

text \<open>
  A small universe of argument values with Python's \<open>str\<close>, used where a concrete value
  is needed. The naming function itself is polymorphic in the value type and takes the
  rendering \<open>str\<close> as an argument.
\<close>

datatype pyval = PyInt int | PyStr string | PyBool bool | PyNone

definition digit :: "nat \<Rightarrow> char" where
  "digit d = ''0123456789'' ! d"

fun str_nat :: "nat \<Rightarrow> string" where
  "str_nat n = (if n < 10 then [digit n] else str_nat (n div 10) @ [digit (n mod 10)])"

declare str_nat.simps [simp del]

definition str_int :: "int \<Rightarrow> string" where
  "str_int i = (if i < 0 then CHR ''-'' # str_nat (nat (- i)) else str_nat (nat i))"

fun str_pyval :: "pyval \<Rightarrow> string" where
  "str_pyval (PyInt i) = str_int i"
| "str_pyval (PyStr s) = s"
| "str_pyval (PyBool b) = (if b then ''True'' else ''False'')"
| "str_pyval PyNone = ''None''"

section \<open>Identifier naming\<close>

text \<open>\<open>sep.join(xs)\<close>.\<close>

fun join :: "string \<Rightarrow> string list \<Rightarrow> string" where
  "join sep [] = []"
| "join sep [x] = x"
| "join sep (x # y # ys) = x @ sep @ join sep (y # ys)"

text \<open>\<open>kwargs.keys()\<close> and \<open>kwargs[argname]\<close> (\<open>None\<close> stands for \<open>KeyError\<close>).\<close>

definition keys :: "('k \<times> 'v) list \<Rightarrow> 'k list" where
  "keys d = map fst d"

definition getitem :: "('k \<times> 'v) list \<Rightarrow> 'k \<Rightarrow> 'v option" where
  "getitem d k = map_of d k"

text \<open>
  \<^verbatim>\<open>
  def _kwargs_to_experiment_name(kwargs):
      return ','.join('{}={}'.format(argname, kwargs[argname]) for argname in sorted(kwargs.keys()))
  \<close>
  Every \<open>argname\<close> comes from \<open>kwargs.keys()\<close>, so the lookup never raises.
\<close>

definition kwargs_to_experiment_name :: "('v \<Rightarrow> string) \<Rightarrow> 'v kwargs \<Rightarrow> string" where
  "kwargs_to_experiment_name str kwargs =
     join '','' (map (\<lambda>argname. argname @ ''='' @ str (the (getitem kwargs argname)))
                   (sort (keys kwargs)))"

text \<open>
  The naming rule in the words of the specification: the \<open>key=value\<close> renderings of the
  given items, joined by commas.
\<close>

definition render_items :: "('v \<Rightarrow> string) \<Rightarrow> (string \<times> 'v) list \<Rightarrow> string" where
  "render_items str items = join '','' (map (\<lambda>(k, v). k @ ''='' @ str v) items)"

text \<open>The items of a dictionary in ascending key order.\<close>

definition sorted_items :: "(string \<times> 'v) list \<Rightarrow> (string \<times> 'v) list" where
  "sorted_items d = map (\<lambda>k. (k, the (getitem d k))) (sort (keys d))"

section \<open>Exceptions and callables\<close>

text \<open>
  What a Python call can raise, by the classes the handlers of \<open>run\<close> tell apart:
  \<open>KeyboardInterrupt\<close>; \<open>Exception msg\<close>, any instance of \<open>Exception\<close> or of a subclass
  (\<open>ValueError\<close>, \<open>TypeError\<close>, \<open>AssertionError\<close>, ...), with its text; and \<open>SystemExit\<close>,
  what \<open>sys.exit()\<close> raises, which like \<open>KeyboardInterrupt\<close> derives from \<open>BaseException\<close>
  and not from \<open>Exception\<close>.
\<close>

datatype exc = KeyboardInterrupt | SystemExit | Exception string

fun is_Exception :: "exc \<Rightarrow> bool" where
  "is_Exception (Exception msg) = True"
| "is_Exception KeyboardInterrupt = False"
| "is_Exception SystemExit = False"

text \<open>A call either returns a value or raises.\<close>

datatype 'r outcome = Returns 'r | Raises exc

text \<open>\<open>d[k] = v\<close> on an \<open>OrderedDict\<close>: a present key keeps its position, a new key goes last.\<close>

fun setitem :: "'k \<Rightarrow> 'v \<Rightarrow> ('k \<times> 'v) list \<Rightarrow> ('k \<times> 'v) list" where
  "setitem k v [] = [(k, v)]"
| "setitem k v ((k', v') # d) = (if k' = k then (k, v) # d else (k', v') # setitem k v d)"

text \<open>
  The function of an experiment takes keyword arguments and may consult the process-wide
  test-mode flag: it is a function of both (and is taken to leave the flag as it finds
  it). \<open>functools.partial(f, **kwargs)\<close> binds keywords; keywords given at the call
  override the bound ones.
\<close>

type_synonym ('v, 'r) callable = "'v kwargs \<Rightarrow> bool \<Rightarrow> 'r outcome"

definition partial :: "('v, 'r) callable \<Rightarrow> 'v kwargs \<Rightarrow> ('v, 'r) callable" where
  "partial f kwargs = (\<lambda>kw flag. f (fold (\<lambda>(k, v). setitem k v) kw kwargs) flag)"

section \<open>The experiment node\<close>

text \<open>
  \<open>class Experiment\<close>. Objects live in a store and are referred to by address, since the
  variant map of a node and the global library hold references to shared, mutable nodes.
  The fields \<open>func\<close> and \<open>exp_notes\<close> are the attributes \<open>function\<close> and \<open>_notes\<close>.
\<close>

record ('v, 'r) Experiment =
  name :: string
  func :: "('v, 'r) callable"
  display_function :: "('r \<Rightarrow> string) option"
  one_liner_results :: "('r \<Rightarrow> string) option"
  comparison_function :: "('r \<Rightarrow> string) option"
  variants :: "(string \<times> nat) list"
  exp_notes :: "string list"
  is_root :: bool

section \<open>The run record and the process state\<close>

datatype status = STARTED | FINISHED | STOPPED | ERROR

text \<open>
  Modelled from the spec: the record object that the scoped acquisition
  \<open>record_experiment\<close> yields (module \<open>artemis.experiments.experiment_record\<close>, not among
  the sources). Of its metadata the model keeps the name, the status, the error trace (the
  exception whose traceback was written), the result payload, the notes, and whether the
  guaranteed block has recorded runtime and figures and whether the scope has been closed.
  It also keeps the options the scope was opened with: \<open>print_to_console\<close> (what is
  printed inside the scope goes to the log file, and to the console as well only under
  this option), \<open>show_figs\<close> and \<open>use_temp_dir\<close>.
\<close>

record 'r experiment_record =
  rec_name :: string
  rec_print_to_console :: bool
  rec_show_figs :: "bool option"
  use_temp_dir :: bool
  rec_status :: "status option"
  error_trace :: "exc option"
  result :: "'r option"
  rec_notes :: "string list"
  runtime_recorded :: bool
  closed :: bool

text \<open>What appears on the console: a printed failure trace, or the display of a result.\<close>

datatype event = TracePrinted exc | Displayed string

text \<open>
  The state of the process that \<open>run\<close> reads and writes: the test-mode flag of
  \<open>artemis.general.test_mode\<close>, the module global \<open>keep_record_by_default\<close>, the console,
  and every record produced so far, as it stands when the call that produced it has ended.
\<close>

record 'r process =
  test_mode :: bool
  keep_record_by_default :: "bool option"
  console :: "event list"
  records :: "'r experiment_record list"

text \<open>Modelled from the spec: the process-wide test-mode flag, get and set.\<close>

definition is_test_mode :: "'r process \<Rightarrow> bool" where
  "is_test_mode p = test_mode p"

definition set_test_mode :: "bool \<Rightarrow> 'r process \<Rightarrow> 'r process" where
  "set_test_mode b p = p\<lparr>test_mode := b\<rparr>"

text \<open>
  Modelled from the spec: the operations of the record handle. \<open>record_experiment\<close> opens
  the scope with a fresh record and the given options; \<open>write_error_trace\<close> stores the
  trace of the exception being handled and, when \<open>print_too\<close>, prints it, which inside
  the scope reaches the console only if the scope was opened with \<open>print_to_console\<close>;
  \<open>save_result\<close> persists the payload; \<open>add_note\<close> appends a note; leaving the scope
  closes the record and files it.
\<close>

definition record_experiment ::
  "string \<Rightarrow> bool \<Rightarrow> bool option \<Rightarrow> bool \<Rightarrow> 'r experiment_record" where
  "record_experiment nm print_to_console' show_figs' temp =
     \<lparr>rec_name = nm, rec_print_to_console = print_to_console', rec_show_figs = show_figs',
      use_temp_dir = temp, rec_status = None, error_trace = None,
      result = None, rec_notes = [], runtime_recorded = False, closed = False\<rparr>"

definition set_status :: "status \<Rightarrow> 'r experiment_record \<Rightarrow> 'r experiment_record" where
  "set_status st r = r\<lparr>rec_status := Some st\<rparr>"

definition write_error_trace ::
  "exc \<Rightarrow> bool \<Rightarrow> 'r experiment_record \<times> 'r process \<Rightarrow> 'r experiment_record \<times> 'r process" where
  "write_error_trace e print_too rp =
     (case rp of (r, p) \<Rightarrow>
        (r\<lparr>error_trace := Some e\<rparr>,
         if print_too \<and> rec_print_to_console r
         then p\<lparr>console := console p @ [TracePrinted e]\<rparr>
         else p))"

definition save_result :: "'r \<Rightarrow> 'r experiment_record \<Rightarrow> 'r experiment_record" where
  "save_result res r = r\<lparr>result := Some res\<rparr>"

definition add_note :: "string \<Rightarrow> 'r experiment_record \<Rightarrow> 'r experiment_record" where
  "add_note n r = r\<lparr>rec_notes := rec_notes r @ [n]\<rparr>"

definition exit_scope :: "'r experiment_record \<Rightarrow> 'r experiment_record" where
  "exit_scope r = r\<lparr>closed := True\<rparr>"

definition file_record :: "'r experiment_record \<Rightarrow> 'r process \<Rightarrow> 'r process" where
  "file_record r p = p\<lparr>records := records p @ [r]\<rparr>"

section \<open>The run lifecycle controller\<close>

text \<open>The parameters of \<open>run\<close> after Python has bound them (defaults in \<open>default_args\<close>).\<close>

record run_args =
  print_to_console :: bool
  show_figs :: "bool option"
  arg_test_mode :: "bool option"
  keep_record :: "bool option"
  raise_exceptions :: bool
  display_results :: bool

definition default_args :: run_args where
  "default_args =
     \<lparr>print_to_console = True, show_figs = None, arg_test_mode = None, keep_record = None,
      raise_exceptions = True, display_results = True\<rparr>"

text \<open>
  The \<open>finally\<close> block of \<open>run\<close> (lines 140 to 144): runtime and figures are recorded on
  every way out of the \<open>try\<close>.
\<close>

definition finally_block :: "'r experiment_record \<Rightarrow> 'r experiment_record" where
  "finally_block r = r\<lparr>runtime_recorded := True\<rparr>"

text \<open>
  \<open>Experiment.run\<close> (lines 76 to 153). The result is what the call gives its caller
  (\<open>Inl e\<close>: it raises \<open>e\<close>; \<open>Inr r\<close>: it returns the record \<open>r\<close>) and the process state
  it leaves. The branches follow the source: the \<open>try\<close> body, the handler of
  \<open>KeyboardInterrupt\<close>, the handler of \<open>Exception\<close> with its \<open>raise\<close> and its
  \<open>return exp_rec\<close>, an exception that neither handler matches, and after each of them the
  \<open>finally\<close> block and the exit of the \<open>with\<close> scope. Only the path that leaves the
  scope normally goes on to line 146 and reaches \<open>set_test_mode(old_test_mode)\<close> on
  line 152. The handlers run inside the scope (lines 129 to 139), so what
  \<open>write_error_trace\<close> prints is subject to the \<open>print_to_console\<close> of the scope; the
  display function runs after the scope (line 150). The metadata calls of lines 114 to 126,
  the logger and the clock are taken not to raise.
\<close>

definition run ::
  "('v, 'r) Experiment \<Rightarrow> run_args \<Rightarrow> 'r process \<Rightarrow> (exc + 'r experiment_record) \<times> 'r process" where
  "run self args p =
     (let test_mode = (case arg_test_mode args of None \<Rightarrow> is_test_mode p | Some b \<Rightarrow> b);
          keep_record = (case keep_record args of
                           None \<Rightarrow> (case keep_record_by_default p of Some k \<Rightarrow> k | None \<Rightarrow> \<not> test_mode)
                         | Some k \<Rightarrow> k);
          old_test_mode = is_test_mode p;
          p1 = set_test_mode test_mode p;
          exp_rec = record_experiment (name self) (print_to_console args) (show_figs args)
                      (\<not> keep_record);
          exp_rec = set_status STARTED exp_rec
      in case func self [] (is_test_mode p1) of
           Returns results \<Rightarrow>
             (let exp_rec = set_status FINISHED exp_rec;
                  exp_rec = finally_block exp_rec;
                  exp_rec = exit_scope exp_rec;
                  exp_rec = save_result results exp_rec;
                  exp_rec = fold add_note (exp_notes self) exp_rec;
                  p2 = (case display_function self of
                          Some display \<Rightarrow>
                            if display_results args
                            then p1\<lparr>console := console p1 @ [Displayed (display results)]\<rparr>
                            else p1
                        | None \<Rightarrow> p1);
                  p3 = set_test_mode old_test_mode p2
              in (Inr exp_rec, file_record exp_rec p3))
         | Raises e \<Rightarrow>
             if e = KeyboardInterrupt then
               (let exp_rec = set_status STOPPED exp_rec;
                    (exp_rec, p2) = write_error_trace e False (exp_rec, p1);
                    exp_rec = finally_block exp_rec;
                    exp_rec = exit_scope exp_rec
                in (Inl e, file_record exp_rec p2))
             else if is_Exception e then
               (let exp_rec = set_status ERROR exp_rec;
                    (exp_rec, p2) = write_error_trace e (\<not> raise_exceptions args) (exp_rec, p1);
                    exp_rec = finally_block exp_rec;
                    exp_rec = exit_scope exp_rec
                in if raise_exceptions args
                   then (Inl e, file_record exp_rec p2)
                   else (Inr exp_rec, file_record exp_rec p2))
             else
               (let exp_rec = finally_block exp_rec;
                    exp_rec = exit_scope exp_rec
                in (Inl e, file_record exp_rec p1)))"

text \<open>
  The flag that the function of the experiment sees when \<open>run\<close> calls it: the resolved
  \<open>test_mode\<close> of lines 97 and 98.
\<close>

definition resolved_test_mode :: "run_args \<Rightarrow> 'r process \<Rightarrow> bool" where
  "resolved_test_mode args p = (case arg_test_mode args of None \<Rightarrow> is_test_mode p | Some b \<Rightarrow> b)"




section \<open>Concrete nodes and a concrete process\<close>

text \<open>
  An experiment named \<open>E\<close> over a given function, without display function, notes or
  variants, and a fresh process: test mode off, no global default for keeping records.
\<close>

definition node_of :: "(pyval, int) callable \<Rightarrow> (pyval, int) Experiment" where
  "node_of f =
     \<lparr>name = ''E'', func = f, display_function = None, one_liner_results = None,
      comparison_function = None, variants = [], exp_notes = [], is_root = False\<rparr>"

definition raising :: "exc \<Rightarrow> (pyval, int) callable" where
  "raising e = (\<lambda>kw flag. Raises e)"

definition returning :: "int \<Rightarrow> (pyval, int) callable" where
  "returning i = (\<lambda>kw flag. Returns i)"


definition fresh_process :: "int process" where
  "fresh_process = \<lparr>test_mode = False, keep_record_by_default = None, console = [], records = []\<rparr>"


section \<open>The object store and the experiment registry\<close>

text \<open>
  The state of the module: the store of \<open>Experiment\<close> objects (an address is an index
  into \<open>heap\<close>; a new object gets the next address) and \<open>GLOBAL_EXPERIMENT_LIBRARY\<close>, an
  \<open>OrderedDict\<close> from names to objects.
\<close>

record ('v, 'r) state =
  heap :: "('v, 'r) Experiment list"
  library :: "(string \<times> nat) list"

definition empty_state :: "('v, 'r) state" where
  "empty_state = \<lparr>heap = [], library = []\<rparr>"

text \<open>
  \<^verbatim>\<open>
  def _register_experiment(experiment):
      GLOBAL_EXPERIMENT_LIBRARY[experiment.name] = experiment
  \<close>
\<close>

definition register_experiment :: "nat \<Rightarrow> ('v, 'r) state \<Rightarrow> ('v, 'r) state" where
  "register_experiment ex s = s\<lparr>library := setitem (name (heap s ! ex)) ex (library s)\<rparr>"

datatype registry_error = ExperimentNotFoundError string

definition load_experiment :: "string \<Rightarrow> ('v, 'r) state \<Rightarrow> registry_error + nat" where
  "load_experiment experiment_id s =
     (case getitem (library s) experiment_id of
        Some ex \<Rightarrow> Inr ex
      | None \<Rightarrow> Inl (ExperimentNotFoundError experiment_id))"

definition is_experiment_loadable :: "string \<Rightarrow> ('v, 'r) state \<Rightarrow> bool" where
  "is_experiment_loadable experiment_id s = (experiment_id \<in> set (keys (library s)))"

definition clear_all_experiments :: "('v, 'r) state \<Rightarrow> ('v, 'r) state" where
  "clear_all_experiments s = s\<lparr>library := []\<rparr>"

text \<open>
  \<open>Experiment.__init__\<close> (lines 25 to 44): the new object is stored and, unless it is a
  root, registered. The result is its address.
\<close>

definition init_Experiment ::
  "('v, 'r) callable \<Rightarrow> ('r \<Rightarrow> string) option \<Rightarrow> ('r \<Rightarrow> string) option \<Rightarrow> ('r \<Rightarrow> string) option
    \<Rightarrow> string \<Rightarrow> bool \<Rightarrow> ('v, 'r) state \<Rightarrow> nat \<times> ('v, 'r) state" where
  "init_Experiment function' display_function' comparison_function' one_liner_function' name' is_root' s =
     (let self = length (heap s);
          s1 = s\<lparr>heap := heap s @
                 [\<lparr>name = name', func = function', display_function = display_function',
                   one_liner_results = one_liner_function',
                   comparison_function = comparison_function',
                   variants = [], exp_notes = [], is_root = is_root'\<rparr>]\<rparr>
      in (self, if \<not> is_root' then register_experiment self s1 else s1))"

section \<open>Variant creation\<close>

text \<open>
  The two assertions of \<open>_create_experiment_variant\<close> raise \<open>AssertionError\<close>; the
  specification calls the first \<open>InvalidArityError\<close> and the second
  \<open>DuplicateVariantError\<close>.
\<close>

datatype usage_error = InvalidArityError | DuplicateVariantError

text \<open>Line 157: the positional argument, or else the name derived from the keywords.\<close>

definition variant_name :: "('v \<Rightarrow> string) \<Rightarrow> string list \<Rightarrow> 'v kwargs \<Rightarrow> string" where
  "variant_name str args kwargs =
     (if length args = 1 then args ! 0 else kwargs_to_experiment_name str kwargs)"

text \<open>
  \<open>Experiment._create_experiment_variant\<close> (lines 155 to 168). The properties
  \<open>display_function\<close>, \<open>comparison_function\<close> and \<open>one_liner_function\<close> of the parent all
  return its \<open>_display_function\<close> (lines 46 to 56). An assertion that fails leaves the
  state as it is: both stand before the first write.
\<close>

definition create_experiment_variant ::
  "('v \<Rightarrow> string) \<Rightarrow> nat \<Rightarrow> string list \<Rightarrow> 'v kwargs \<Rightarrow> bool \<Rightarrow> ('v, 'r) state
    \<Rightarrow> (usage_error + nat) \<times> ('v, 'r) state" where
  "create_experiment_variant str self args kwargs is_root' s =
     (if length args \<noteq> 0 \<and> length args \<noteq> 1 then (Inl InvalidArityError, s)
      else
        (let nm = variant_name str args kwargs
         in if nm \<in> set (keys (variants (heap s ! self))) then (Inl DuplicateVariantError, s)
            else
              (let (ex, s1) =
                     init_Experiment (partial (func (heap s ! self)) kwargs)
                       (display_function (heap s ! self)) (display_function (heap s ! self))
                       (display_function (heap s ! self))
                       (name (heap s ! self) @ ''.'' @ nm) is_root' s;
                   s2 = s1\<lparr>heap := (heap s1)
                          [self := (heap s1 ! self)
                             \<lparr>variants := setitem nm ex (variants (heap s1 ! self))\<rparr>]\<rparr>
               in (Inr ex, s2))))"

definition add_variant ::
  "('v \<Rightarrow> string) \<Rightarrow> nat \<Rightarrow> string list \<Rightarrow> 'v kwargs \<Rightarrow> ('v, 'r) state
    \<Rightarrow> (usage_error + nat) \<times> ('v, 'r) state" where
  "add_variant str self args kwargs s = create_experiment_variant str self args kwargs False s"

definition add_root_variant ::
  "('v \<Rightarrow> string) \<Rightarrow> nat \<Rightarrow> string list \<Rightarrow> 'v kwargs \<Rightarrow> ('v, 'r) state
    \<Rightarrow> (usage_error + nat) \<times> ('v, 'r) state" where
  "add_root_variant str self args kwargs s = create_experiment_variant str self args kwargs True s"

section \<open>Walking the variant tree\<close>

text \<open>
  The loop of \<open>get_all_variants\<close> (lines 259 and 260) over the items of \<open>self.variants\<close>,
  given what the recursive call returns for a child (\<open>None\<close>: it does not return).
\<close>

fun collect ::
  "(nat \<Rightarrow> nat list option) \<Rightarrow> (string \<times> nat) list \<Rightarrow> nat list \<Rightarrow> nat list option" where
  "collect child [] variants' = Some variants'"
| "collect child ((nm, v) # rest) variants' =
     (case child v of
        None \<Rightarrow> None
      | Some vs \<Rightarrow> collect child rest (variants' @ vs))"

text \<open>
  \<open>Experiment.get_all_variants\<close> (lines 249 to 261). The recursion follows references
  through the store, so the model bounds its depth by \<open>fuel\<close>; \<open>None\<close> says that the
  bound was reached. In a store built by the operations above every child is younger than
  its parent, and the size of the store is fuel enough (lemma \<open>all_variants_returns\<close>).
\<close>

primrec get_all_variants ::
  "nat \<Rightarrow> ('v, 'r) Experiment list \<Rightarrow> bool \<Rightarrow> bool \<Rightarrow> nat \<Rightarrow> nat list option" where
  "get_all_variants 0 h include_roots include_self self = None"
| "get_all_variants (Suc fuel) h include_roots include_self self =
     collect (get_all_variants fuel h include_roots True) (variants (h ! self))
       (if include_self \<and> (\<not> is_root (h ! self) \<or> include_roots) then [self] else [])"

definition all_variants :: "('v, 'r) state \<Rightarrow> bool \<Rightarrow> bool \<Rightarrow> nat \<Rightarrow> nat list option" where
  "all_variants s include_roots include_self self =
     get_all_variants (length (heap s)) (heap s) include_roots include_self self"

section \<open>Programs over the registry\<close>

text \<open>
  What a client of the module does to the state: define an experiment (the constructor,
  as the decorator calls it), add a variant or a root variant to an existing node, clear
  the registry. A call that raises leaves the state as the raise left it. A command that
  names an object that does not exist yet is not a call a client can make and does
  nothing.
\<close>

datatype ('v, 'r) command =
  Define string "('v, 'r) callable" bool
| AddVariant nat "string list" "'v kwargs"
| AddRootVariant nat "string list" "'v kwargs"
| ClearAll

fun exec :: "('v \<Rightarrow> string) \<Rightarrow> ('v, 'r) command \<Rightarrow> ('v, 'r) state \<Rightarrow> ('v, 'r) state" where
  "exec str (Define nm f root) s = snd (init_Experiment f None None None nm root s)"
| "exec str (AddVariant self args kwargs) s =
     (if self < length (heap s) then snd (add_variant str self args kwargs s) else s)"
| "exec str (AddRootVariant self args kwargs) s =
     (if self < length (heap s) then snd (add_root_variant str self args kwargs s) else s)"
| "exec str ClearAll s = clear_all_experiments s"

definition exec_all ::
  "('v \<Rightarrow> string) \<Rightarrow> ('v, 'r) command list \<Rightarrow> ('v, 'r) state \<Rightarrow> ('v, 'r) state" where
  "exec_all str cmds s = fold (exec str) cmds s"

section \<open>Capturing created experiments\<close>

text \<open>
  \<^verbatim>\<open>
  @contextmanager
  def capture_created_experiments():
      current_len = len(GLOBAL_EXPERIMENT_LIBRARY)
      new_experiments = []
      yield new_experiments
      for ex in GLOBAL_EXPERIMENT_LIBRARY.values()[current_len:]:
          new_experiments.append(ex)
  \<close>
  The block under the \<open>with\<close> is a state transformer \<open>body\<close>; the result is the list
  \<open>new_experiments\<close> as it stands after the scope, with the state.
\<close>

definition capture_created_experiments ::
  "(('v, 'r) state \<Rightarrow> ('v, 'r) state) \<Rightarrow> ('v, 'r) state \<Rightarrow> nat list \<times> ('v, 'r) state" where
  "capture_created_experiments body s =
     (let current_len = length (library s);
          new_experiments = [];
          s' = body s
      in (new_experiments @ drop current_len (map snd (library s')), s'))"

section \<open>The record query layer\<close>

text \<open>
  Modelled from the spec: the external record store. \<open>store nm\<close> is what
  \<open>experiment_id_to_record_ids(nm)\<close> followed by \<open>load_experiment_record\<close> gives: the
  records persisted under the experiment name \<open>nm\<close>, in the order of the store.
\<close>

type_synonym 'r record_store = "string \<Rightarrow> 'r experiment_record list"

text \<open>\<open>Experiment.get_records\<close> (lines 223 to 227).\<close>

definition get_records ::
  "'r record_store \<Rightarrow> ('v, 'r) Experiment \<Rightarrow> bool \<Rightarrow> 'r experiment_record list" where
  "get_records store self only_completed =
     (let records = store (name self)
      in if only_completed then filter (\<lambda>record. rec_status record = Some FINISHED) records
         else records)"

text \<open>
  \<open>Experiment.get_latest_record\<close> (lines 266 to 280): \<open>Inl\<close> is the exception it raises,
  \<open>Inr None\<close> the value \<open>None\<close>.
\<close>

definition get_latest_record ::
  "'r record_store \<Rightarrow> ('v, 'r) Experiment \<Rightarrow> bool \<Rightarrow> bool \<Rightarrow> exc + 'r experiment_record option" where
  "get_latest_record store self only_completed err_if_none =
     (let records = get_records store self only_completed
      in if length records = 0
         then (if err_if_none then Inl (Exception ''No records for experiment'') else Inr None)
         else Inr (Some (last records)))"

text \<open>\<open>OrderedDict(pairs)\<close>: the pairs are stored one after the other.\<close>

definition ordered_dict :: "('k \<times> 'v) list \<Rightarrow> ('k \<times> 'v) list" where
  "ordered_dict pairs = fold (\<lambda>(k, v). setitem k v) pairs []"

text \<open>
  The generator of line 292, \<open>(ex.name, ex.get_latest_record(..., err_if_none=False))\<close>
  for \<open>ex\<close> in \<open>variants\<close>; an exception raised for one element ends the whole.
\<close>

fun latest_items ::
  "'r record_store \<Rightarrow> ('v, 'r) Experiment list \<Rightarrow> bool \<Rightarrow> nat list
    \<Rightarrow> exc + (string \<times> 'r experiment_record option) list" where
  "latest_items store h only_completed [] = Inr []"
| "latest_items store h only_completed (ex # exs) =
     (case get_latest_record store (h ! ex) only_completed False of
        Inl e \<Rightarrow> Inl e
      | Inr record \<Rightarrow>
          (case latest_items store h only_completed exs of
             Inl e \<Rightarrow> Inl e
           | Inr items \<Rightarrow> Inr ((name (h ! ex), record) # items)))"

text \<open>
  What \<open>get_variant_records\<close> returns: a dictionary from names to the latest record or
  \<open>None\<close>, a dictionary from names to lists of records, or (\<open>flat\<close>) a list, whose
  elements are Python values and so, as far as the type goes, records or \<open>None\<close>.
\<close>

datatype 'r variant_records =
  LatestDict "(string \<times> 'r experiment_record option) list"
| RecordsDict "(string \<times> 'r experiment_record list) list"
| RecordList "'r experiment_record option list"

text \<open>
  \<open>Experiment.get_variant_records\<close> (lines 282 to 302). The outer \<open>None\<close> is that of
  \<open>get_all_variants\<close>; \<open>Inl\<close> is an exception.
\<close>

definition get_variant_records ::
  "'r record_store \<Rightarrow> ('v, 'r) state \<Rightarrow> nat \<Rightarrow> bool \<Rightarrow> bool \<Rightarrow> bool
    \<Rightarrow> (exc + 'r variant_records) option" where
  "get_variant_records store s self only_completed only_last flat =
     (case all_variants s False True self of
        None \<Rightarrow> None
      | Some variants' \<Rightarrow>
          Some
            (if only_last then
               (case latest_items store (heap s) only_completed variants' of
                  Inl e \<Rightarrow> Inl e
                | Inr items \<Rightarrow>
                    (let exp_record_dict = ordered_dict items
                     in if flat
                        then Inr (RecordList (filter (\<lambda>record. record \<noteq> None) (map snd exp_record_dict)))
                        else Inr (LatestDict exp_record_dict)))
             else
               (let exp_record_dict =
                      ordered_dict
                        (map (\<lambda>ex. (name (heap s ! ex), get_records store (heap s ! ex) only_completed))
                           variants')
                in if flat
                   then Inr (RecordList (concat (map (\<lambda>records. map Some records) (map snd exp_record_dict))))
                   else Inr (RecordsDict exp_record_dict))))"

section \<open>Invariants of the states that programs reach\<close>

text \<open>The object that \<open>_create_experiment_variant\<close> builds.\<close>

definition child_of :: "('v, 'r) Experiment \<Rightarrow> string \<Rightarrow> 'v kwargs \<Rightarrow> bool \<Rightarrow> ('v, 'r) Experiment" where
  "child_of parent nm kwargs root =
     \<lparr>name = name parent @ ''.'' @ nm, func = partial (func parent) kwargs,
      display_function = display_function parent, one_liner_results = display_function parent,
      comparison_function = display_function parent, variants = [], exp_notes = [],
      is_root = root\<rparr>"

text \<open>
  In a well-formed state every child in a variant map is an object of the store younger
  than its parent, and every entry of the library is an object of the store that is not a
  root, under its own name.
\<close>

definition wf_heap :: "('v, 'r) Experiment list \<Rightarrow> bool" where
  "wf_heap h = (\<forall>a<length h. \<forall>(nm, c)\<in>set (variants (h ! a)). a < c \<and> c < length h)"

definition wf_state :: "('v, 'r) state \<Rightarrow> bool" where
  "wf_state s =
     (wf_heap (heap s)
      \<and> (\<forall>(nm, a)\<in>set (library s).
            a < length (heap s) \<and> \<not> is_root (heap s ! a) \<and> name (heap s ! a) = nm))"

text \<open>
  A later state extends an earlier one: objects stay, with their names and root flags, and
  variant maps only grow.
\<close>

definition extends :: "('v, 'r) state \<Rightarrow> ('v, 'r) state \<Rightarrow> bool" where
  "extends s s' =
     (length (heap s) \<le> length (heap s')
      \<and> (\<forall>a<length (heap s).
            name (heap s' ! a) = name (heap s ! a)
            \<and> is_root (heap s' ! a) = is_root (heap s ! a)
            \<and> set (variants (heap s ! a)) \<subseteq> set (variants (heap s' ! a))))"

text \<open>Linking a child into the variant map of its parent (line 167).\<close>

definition link :: "nat \<Rightarrow> string \<Rightarrow> nat \<Rightarrow> ('v, 'r) state \<Rightarrow> ('v, 'r) state" where
  "link self nm ex s =
     s\<lparr>heap := (heap s)[self := (heap s ! self)\<lparr>variants := setitem nm ex (variants (heap s ! self))\<rparr>]\<rparr>"

text \<open>
  The latest record that the store holds under a name, among all records or among the
  finished ones; \<open>None\<close> when there is none.
\<close>

definition latest_by_name :: "'r record_store \<Rightarrow> string \<Rightarrow> bool \<Rightarrow> 'r experiment_record option" where
  "latest_by_name store nm only_completed =
     (let records = (if only_completed
                     then filter (\<lambda>record. rec_status record = Some FINISHED) (store nm)
                     else store nm)
      in if records = [] then None else Some (last records))"

section \<open>Concrete registries\<close>

text \<open>An \<open>Experiment\<close> object without display function and notes.\<close>

definition node :: "string \<Rightarrow> ('v, 'r) callable \<Rightarrow> (string \<times> nat) list \<Rightarrow> bool \<Rightarrow> ('v, 'r) Experiment" where
  "node nm f vs root =
     \<lparr>name = nm, func = f, display_function = None, one_liner_results = None,
      comparison_function = None, variants = vs, exp_notes = [], is_root = root\<rparr>"

text \<open>The experiment \<open>E\<close> alone: object 0, registered.\<close>

definition only_E :: "(pyval, int) state" where
  "only_E = exec str_pyval (Define ''E'' (returning 42) False) empty_state"

text \<open>
  \<open>E.add_variant('big_a', a=10000)\<close> and \<open>E.add_variant(a=10000)\<close>, the two calls of the
  docstring of \<open>add_variant\<close>: objects 1 and 2.
\<close>

definition with_big_a :: "(pyval, int) state" where
  "with_big_a = exec str_pyval (AddVariant 0 [''big_a''] [(''a'', PyInt 10000)]) only_E"

definition two_variants :: "(pyval, int) state" where
  "two_variants = exec str_pyval (AddVariant 0 [] [(''a'', PyInt 10000)]) with_big_a"

text \<open>
  \<open>E.add_root_variant('a.b')\<close> gives the root object 1, named \<open>E.a.b\<close>; then
  \<open>E.add_variant('a')\<close> gives object 2 and \<open>add_variant('b')\<close> on that gives object 3,
  named \<open>E.a.b\<close> as well, and registered.
\<close>

definition root_ab :: "(pyval, int) state" where
  "root_ab = snd (add_root_variant str_pyval 0 [''a.b''] [] only_E)"

definition root_ab_a :: "(pyval, int) state" where
  "root_ab_a = exec str_pyval (AddVariant 0 [''a''] []) root_ab"

definition root_ab_a_b :: "(pyval, int) state" where
  "root_ab_a_b = exec str_pyval (AddVariant 2 [''b''] []) root_ab_a"

text \<open>The same three calls with \<open>add_variant\<close> throughout: two variants named \<open>E.a.b\<close>.\<close>

definition plain_ab :: "(pyval, int) state" where
  "plain_ab = exec str_pyval (AddVariant 0 [''a.b''] []) only_E"

definition plain_ab_a :: "(pyval, int) state" where
  "plain_ab_a = exec str_pyval (AddVariant 0 [''a''] []) plain_ab"

definition plain_ab_a_b :: "(pyval, int) state" where
  "plain_ab_a_b = exec str_pyval (AddVariant 2 [''b''] []) plain_ab_a"

text \<open>A store without records, and one with a finished run of \<open>E\<close>.\<close>

definition no_records :: "int record_store" where
  "no_records = (\<lambda>nm. [])"

definition finished_run :: "int experiment_record" where
  "finished_run =
     \<lparr>rec_name = ''E'', rec_print_to_console = True, rec_show_figs = None,
      use_temp_dir = False, rec_status = Some FINISHED, error_trace = None,
      result = Some 42, rec_notes = [], runtime_recorded = True, closed = True\<rparr>"

definition one_record :: "int record_store" where
  "one_record = (\<lambda>nm. if nm = ''E'' then [finished_run] else [])"

section \<open>Naming: proofs\<close>

lemma getitem_in:
  assumes "distinct (map fst d)" and "(k, v) \<in> set d"
  shows "getitem d k = Some v"
  using assms by (simp add: getitem_def)

lemma sorted_keys_same:
  assumes "distinct (map fst a)" and "distinct (map fst b)" and "set a = set b"
  shows "sort (keys a) = sort (keys b)"
proof -
  have "set (map fst a) = set (map fst b)"
    using assms(3) by simp
  then show ?thesis
    unfolding keys_def using assms(1,2)
    by (intro sorted_distinct_set_unique) simp_all
qed

lemma getitem_same:
  assumes "distinct (map fst a)" and "distinct (map fst b)" and "set a = set b"
  shows "getitem a = getitem b"
  unfolding getitem_def using assms by (intro ext map_of_inject_set[THEN iffD2]) auto

lemma name_order_independent:
  assumes "distinct (map fst a)" and "distinct (map fst b)" and "set a = set b"
  shows "kwargs_to_experiment_name str a = kwargs_to_experiment_name str b"
  unfolding kwargs_to_experiment_name_def
  using sorted_keys_same[OF assms] getitem_same[OF assms] by simp

lemma sorted_items_keys: "map fst (sorted_items d) = sort (keys d)"
  by (simp add: sorted_items_def comp_def)

lemma sorted_items_set:
  assumes "distinct (map fst d)"
  shows "set (sorted_items d) = set d"
proof (intro set_eqI iffI)
  fix p assume "p \<in> set (sorted_items d)"
  then obtain k where k: "k \<in> set (keys d)" and p: "p = (k, the (getitem d k))"
    by (auto simp: sorted_items_def)
  from k obtain v where "(k, v) \<in> set d" by (auto simp: keys_def)
  with assms p show "p \<in> set d" by (simp add: getitem_in)
next
  fix p assume "p \<in> set d"
  moreover obtain k v where "p = (k, v)" by (cases p)
  ultimately show "p \<in> set (sorted_items d)"
    using assms by (force simp: sorted_items_def keys_def getitem_in)
qed

lemma name_render_sorted_items:
  "kwargs_to_experiment_name str d = render_items str (sorted_items d)"
  by (simp add: kwargs_to_experiment_name_def render_items_def sorted_items_def comp_def)

text \<open>
  Claim C5. For every keyword dictionary, \<open>_kwargs_to_experiment_name\<close> returns the
  \<open>key=value\<close> renderings of exactly the dictionary's items, joined by commas, the keys in
  (strictly) ascending lexicographic order and each value rendered by \<open>str\<close>; and any
  dictionary with the same items, whatever its iteration order, gets the same name.
\<close>

theorem kwargs_name_sorted_order_independent:
  assumes "distinct (map fst kwargs)"
  shows "(\<exists>items. set items = set kwargs \<and> distinct (map fst items) \<and> sorted (map fst items)
            \<and> kwargs_to_experiment_name str kwargs = render_items str items)
       \<and> (\<forall>kwargs'. distinct (map fst kwargs') \<and> set kwargs' = set kwargs
            \<longrightarrow> kwargs_to_experiment_name str kwargs' = kwargs_to_experiment_name str kwargs)"
proof (intro conjI allI impI)
  have "distinct (map fst (sorted_items kwargs))"
    using assms by (simp add: sorted_items_keys keys_def)
  moreover have "sorted (map fst (sorted_items kwargs))"
    by (simp add: sorted_items_keys)
  ultimately show "\<exists>items. set items = set kwargs \<and> distinct (map fst items)
      \<and> sorted (map fst items) \<and> kwargs_to_experiment_name str kwargs = render_items str items"
    using sorted_items_set[OF assms] name_render_sorted_items by blast
next
  fix kwargs' :: "'a kwargs"
  assume "distinct (map fst kwargs') \<and> set kwargs' = set kwargs"
  then show "kwargs_to_experiment_name str kwargs' = kwargs_to_experiment_name str kwargs"
    using assms by (intro name_order_independent) simp_all
qed

theorem kwargs_name_sorted_order_independent_witness:
  "distinct (map fst [(''b'', PyInt 2), (''a'', PyInt 10000)])
   \<and> kwargs_to_experiment_name str_pyval [(''b'', PyInt 2), (''a'', PyInt 10000)] = ''a=10000,b=2''
   \<and> kwargs_to_experiment_name str_pyval [(''a'', PyInt 10000), (''b'', PyInt 2)] = ''a=10000,b=2''"
proof -
  have d: "distinct (map fst [(''b'', PyInt 2), (''a'', PyInt 10000)])"
    by simp
  have v: "kwargs_to_experiment_name str_pyval [(''b'', PyInt 2), (''a'', PyInt 10000)] = ''a=10000,b=2''"
    by (simp add: kwargs_to_experiment_name_def keys_def getitem_def str_int_def
        str_nat.simps digit_def)
  have s: "distinct (map fst [(''a'', PyInt 10000), (''b'', PyInt 2)])
      \<and> set [(''a'', PyInt 10000), (''b'', PyInt 2)] = set [(''b'', PyInt 2), (''a'', PyInt 10000)]"
    by (simp add: insert_commute)
  have "kwargs_to_experiment_name str_pyval [(''a'', PyInt 10000), (''b'', PyInt 2)]
      = kwargs_to_experiment_name str_pyval [(''b'', PyInt 2), (''a'', PyInt 10000)]"
    using kwargs_name_sorted_order_independent[OF d, of str_pyval, THEN conjunct2, rule_format, OF s] .
  with d v show ?thesis by simp
qed

section \<open>The run lifecycle controller: proofs\<close>

lemmas run_simps =
  run_def is_test_mode_def set_test_mode_def record_experiment_def set_status_def
  write_error_trace_def save_result_def exit_scope_def file_record_def finally_block_def

lemma fold_add_note_fields:
  "result (fold add_note ns r) = result r"
  "rec_status (fold add_note ns r) = rec_status r"
  "error_trace (fold add_note ns r) = error_trace r"
  by (induction ns arbitrary: r) (simp_all add: add_note_def)

lemma run_normal_restores_flag:
  assumes "func self [] (resolved_test_mode args p) = Returns res"
  shows "is_test_mode (snd (run self args p)) = is_test_mode p"
  using assms
  by (simp add: run_simps resolved_test_mode_def Let_def split: option.splits)

lemma run_raising_keeps_resolved_flag:
  assumes "func self [] (resolved_test_mode args p) = Raises e"
  shows "is_test_mode (snd (run self args p)) = resolved_test_mode args p"
  using assms
  by (cases e) (simp_all add: run_simps resolved_test_mode_def Let_def split: option.splits)

text \<open>
  Claim C1, at the input where it fails. The flag is off; \<open>run(test_mode=True,
  raise_exceptions=False)\<close> on a function that raises \<open>ValueError\<close> returns the error
  record, and the flag is on afterwards: \<open>return exp_rec\<close> on line 139 leaves before
  \<open>set_test_mode(old_test_mode)\<close> on line 152.
\<close>

theorem run_handled_error_leaves_test_mode_on:
  "is_test_mode fresh_process = False
   \<and> (\<exists>r. fst (run (node_of (raising (Exception ''ValueError'')))
                 (default_args\<lparr>arg_test_mode := Some True, raise_exceptions := False\<rparr>)
                 fresh_process) = Inr r)
   \<and> is_test_mode (snd (run (node_of (raising (Exception ''ValueError'')))
                 (default_args\<lparr>arg_test_mode := Some True, raise_exceptions := False\<rparr>)
                 fresh_process)) = True"
  by (simp add: run_simps node_of_def raising_def default_args_def fresh_process_def Let_def)

text \<open>
  Claim C2. When the function raises \<open>KeyboardInterrupt\<close>, \<open>run\<close> raises
  \<open>KeyboardInterrupt\<close> to its caller, whatever \<open>raise_exceptions\<close> is; the record it
  produced has status \<open>STOPPED\<close> and carries the failure trace; and nothing was printed:
  the console is as it was.
\<close>

theorem run_interrupted_stopped_reraised:
  assumes "func self [] (resolved_test_mode args p) = Raises KeyboardInterrupt"
  shows "fst (run self args p) = Inl KeyboardInterrupt
       \<and> (\<exists>r. records (snd (run self args p)) = records p @ [r]
              \<and> rec_status r = Some STOPPED \<and> error_trace r = Some KeyboardInterrupt)
       \<and> console (snd (run self args p)) = console p"
  using assms
  by (simp add: run_simps resolved_test_mode_def Let_def split: option.splits)

theorem run_interrupted_stopped_reraised_witness:
  "fst (run (node_of (raising KeyboardInterrupt)) (default_args\<lparr>raise_exceptions := False\<rparr>)
          fresh_process) = Inl KeyboardInterrupt
   \<and> (\<exists>r. records (snd (run (node_of (raising KeyboardInterrupt))
                       (default_args\<lparr>raise_exceptions := False\<rparr>) fresh_process)) = [r]
          \<and> rec_status r = Some STOPPED \<and> error_trace r = Some KeyboardInterrupt)
   \<and> console (snd (run (node_of (raising KeyboardInterrupt))
                       (default_args\<lparr>raise_exceptions := False\<rparr>) fresh_process)) = []"
proof -
  have h: "func (node_of (raising KeyboardInterrupt)) []
      (resolved_test_mode (default_args\<lparr>raise_exceptions := False\<rparr>) fresh_process)
      = Raises KeyboardInterrupt"
    by (simp add: node_of_def raising_def)
  have "records fresh_process = []" and "console fresh_process = []"
    by (simp_all add: fresh_process_def)
  with run_interrupted_stopped_reraised [OF h] show ?thesis
    by simp
qed

text \<open>
  Claim C3, as stated, fails in two ways. For an exception outside the class
  \<open>Exception\<close>: when the function raises \<open>SystemExit\<close> and \<open>raise_exceptions\<close> is false,
  neither handler matches; the status stays \<open>STARTED\<close>, no trace is written, and \<open>run\<close>
  raises instead of returning the record. And for the echo: when the function raises
  \<open>ValueError\<close> under \<open>run(print_to_console=False, raise_exceptions=False)\<close>, the record
  is returned with status \<open>ERROR\<close> and its trace, but the scope keeps what is printed
  off the console, and nothing is echoed.
\<close>

theorem run_error_echo_counterexamples:
  "fst (run (node_of (raising SystemExit)) (default_args\<lparr>raise_exceptions := False\<rparr>)
          fresh_process) = Inl SystemExit
   \<and> map rec_status (records (snd (run (node_of (raising SystemExit))
          (default_args\<lparr>raise_exceptions := False\<rparr>) fresh_process))) = [Some STARTED]
   \<and> map error_trace (records (snd (run (node_of (raising SystemExit))
          (default_args\<lparr>raise_exceptions := False\<rparr>) fresh_process))) = [None]
   \<and> console (snd (run (node_of (raising SystemExit))
          (default_args\<lparr>raise_exceptions := False\<rparr>) fresh_process)) = []
   \<and> isl (fst (run (node_of (raising (Exception ''ValueError'')))
          (default_args\<lparr>print_to_console := False, raise_exceptions := False\<rparr>)
          fresh_process)) = False
   \<and> map rec_status (records (snd (run (node_of (raising (Exception ''ValueError'')))
          (default_args\<lparr>print_to_console := False, raise_exceptions := False\<rparr>)
          fresh_process))) = [Some ERROR]
   \<and> map error_trace (records (snd (run (node_of (raising (Exception ''ValueError'')))
          (default_args\<lparr>print_to_console := False, raise_exceptions := False\<rparr>)
          fresh_process))) = [Some (Exception ''ValueError'')]
   \<and> console (snd (run (node_of (raising (Exception ''ValueError'')))
          (default_args\<lparr>print_to_console := False, raise_exceptions := False\<rparr>)
          fresh_process)) = []"
  by (simp add: run_simps node_of_def raising_def default_args_def fresh_process_def Let_def)

text \<open>
  Claim C3, amended. When the function raises an exception \<open>e\<close> of class \<open>Exception\<close>,
  the record that \<open>run\<close> produced has status \<open>ERROR\<close> and carries the trace of \<open>e\<close>; the
  trace is printed to the console exactly when \<open>raise_exceptions\<close> is false and
  \<open>print_to_console\<close> is true, and nothing else is printed; and \<open>run\<close> raises \<open>e\<close> when
  \<open>raise_exceptions\<close> is true, and otherwise returns that record.
\<close>

theorem run_exception_error_recorded:
  assumes "func self [] (resolved_test_mode args p) = Raises e" and "is_Exception e"
  shows "\<exists>r. records (snd (run self args p)) = records p @ [r]
           \<and> rec_status r = Some ERROR \<and> error_trace r = Some e
           \<and> console (snd (run self args p))
               = (if \<not> raise_exceptions args \<and> print_to_console args
                  then console p @ [TracePrinted e]
                  else console p)
           \<and> fst (run self args p) = (if raise_exceptions args then Inl e else Inr r)"
proof -
  from assms(2) have "e \<noteq> KeyboardInterrupt"
    by (cases e) simp_all
  with assms show ?thesis
    by (simp add: run_simps resolved_test_mode_def Let_def split: option.splits)
qed

theorem run_exception_error_recorded_witness:
  "(\<exists>r. records (snd (run (node_of (raising (Exception ''ValueError'')))
                      (default_args\<lparr>raise_exceptions := False\<rparr>) fresh_process)) = [r]
      \<and> rec_status r = Some ERROR \<and> error_trace r = Some (Exception ''ValueError'')
      \<and> console (snd (run (node_of (raising (Exception ''ValueError'')))
                      (default_args\<lparr>raise_exceptions := False\<rparr>) fresh_process))
          = [TracePrinted (Exception ''ValueError'')]
      \<and> fst (run (node_of (raising (Exception ''ValueError'')))
                      (default_args\<lparr>raise_exceptions := False\<rparr>) fresh_process) = Inr r)
   \<and> (\<exists>r. records (snd (run (node_of (raising (Exception ''ValueError'')))
                      (default_args\<lparr>print_to_console := False, raise_exceptions := False\<rparr>)
                      fresh_process)) = [r]
      \<and> rec_status r = Some ERROR \<and> error_trace r = Some (Exception ''ValueError'')
      \<and> console (snd (run (node_of (raising (Exception ''ValueError'')))
                      (default_args\<lparr>print_to_console := False, raise_exceptions := False\<rparr>)
                      fresh_process)) = []
      \<and> fst (run (node_of (raising (Exception ''ValueError'')))
                      (default_args\<lparr>print_to_console := False, raise_exceptions := False\<rparr>)
                      fresh_process) = Inr r)
   \<and> (\<exists>r. records (snd (run (node_of (raising (Exception ''ValueError'')))
                      default_args fresh_process)) = [r]
      \<and> rec_status r = Some ERROR \<and> error_trace r = Some (Exception ''ValueError'')
      \<and> console (snd (run (node_of (raising (Exception ''ValueError'')))
                      default_args fresh_process)) = []
      \<and> fst (run (node_of (raising (Exception ''ValueError''))) default_args fresh_process)
          = Inl (Exception ''ValueError''))"
proof -
  have h: "func (node_of (raising (Exception ''ValueError''))) [] (resolved_test_mode args fresh_process)
      = Raises (Exception ''ValueError'')" for args
    by (simp add: node_of_def raising_def)
  have c: "records fresh_process = []" "console fresh_process = []"
    by (simp_all add: fresh_process_def)
  have a1: "raise_exceptions (default_args\<lparr>raise_exceptions := False\<rparr>) = False"
    "print_to_console (default_args\<lparr>raise_exceptions := False\<rparr>) = True"
    by (simp_all add: default_args_def)
  have a2: "raise_exceptions (default_args\<lparr>print_to_console := False, raise_exceptions := False\<rparr>) = False"
    "print_to_console (default_args\<lparr>print_to_console := False, raise_exceptions := False\<rparr>) = False"
    by simp_all
  have a3: "raise_exceptions default_args = True"
    by (simp add: default_args_def)
  from run_exception_error_recorded [OF h, of "default_args\<lparr>raise_exceptions := False\<rparr>"]
  have 1: "\<exists>r. records (snd (run (node_of (raising (Exception ''ValueError'')))
                      (default_args\<lparr>raise_exceptions := False\<rparr>) fresh_process)) = [r]
      \<and> rec_status r = Some ERROR \<and> error_trace r = Some (Exception ''ValueError'')
      \<and> console (snd (run (node_of (raising (Exception ''ValueError'')))
                      (default_args\<lparr>raise_exceptions := False\<rparr>) fresh_process))
          = [TracePrinted (Exception ''ValueError'')]
      \<and> fst (run (node_of (raising (Exception ''ValueError'')))
                      (default_args\<lparr>raise_exceptions := False\<rparr>) fresh_process) = Inr r"
    unfolding c a1 by simp
  from run_exception_error_recorded
         [OF h, of "default_args\<lparr>print_to_console := False, raise_exceptions := False\<rparr>"]
  have 2: "\<exists>r. records (snd (run (node_of (raising (Exception ''ValueError'')))
                      (default_args\<lparr>print_to_console := False, raise_exceptions := False\<rparr>)
                      fresh_process)) = [r]
      \<and> rec_status r = Some ERROR \<and> error_trace r = Some (Exception ''ValueError'')
      \<and> console (snd (run (node_of (raising (Exception ''ValueError'')))
                      (default_args\<lparr>print_to_console := False, raise_exceptions := False\<rparr>)
                      fresh_process)) = []
      \<and> fst (run (node_of (raising (Exception ''ValueError'')))
                      (default_args\<lparr>print_to_console := False, raise_exceptions := False\<rparr>)
                      fresh_process) = Inr r"
    unfolding c a2 by simp
  from run_exception_error_recorded [OF h, of default_args]
  have 3: "\<exists>r. records (snd (run (node_of (raising (Exception ''ValueError'')))
                      default_args fresh_process)) = [r]
      \<and> rec_status r = Some ERROR \<and> error_trace r = Some (Exception ''ValueError'')
      \<and> console (snd (run (node_of (raising (Exception ''ValueError'')))
                      default_args fresh_process)) = []
      \<and> fst (run (node_of (raising (Exception ''ValueError''))) default_args fresh_process)
          = Inl (Exception ''ValueError'')"
    unfolding c a3 by simp
  from 1 2 3 show ?thesis
    by blast
qed

text \<open>
  Claim C4, as stated, fails on handled-error completion: \<open>run(raise_exceptions=False)\<close>
  on a function that raises \<open>ValueError\<close> returns the record, and the record has no result
  payload; \<open>return exp_rec\<close> on line 139 leaves before \<open>save_result\<close> on line 146.
\<close>

theorem run_handled_error_saves_no_result:
  "(\<exists>r. fst (run (node_of (raising (Exception ''ValueError'')))
             (default_args\<lparr>raise_exceptions := False\<rparr>) fresh_process) = Inr r
        \<and> rec_status r = Some ERROR \<and> result r = None)
   \<and> map result (records (snd (run (node_of (raising (Exception ''ValueError'')))
             (default_args\<lparr>raise_exceptions := False\<rparr>) fresh_process))) = [None]"
  by (simp add: run_simps node_of_def raising_def default_args_def fresh_process_def Let_def)

text \<open>
  Claim C4, amended. The result payload is persisted on normal completion and only then:
  the record that a run produces carries the value the function returned when the function
  returned, and no payload when the function raised, be it an interruption, an error that
  is raised on, or an error that \<open>run\<close> handles and answers with the record.
\<close>

theorem run_result_saved_iff_returned:
  "\<exists>r. records (snd (run self args p)) = records p @ [r]
      \<and> result r = (case func self [] (resolved_test_mode args p) of
                      Returns res \<Rightarrow> Some res
                    | Raises e \<Rightarrow> None)"
proof (cases "func self [] (resolved_test_mode args p)")
  case (Returns res)
  then show ?thesis
    by (simp add: run_simps resolved_test_mode_def Let_def fold_add_note_fields
        split: option.splits)
next
  case (Raises e)
  then show ?thesis
    by (cases e) (simp_all add: run_simps resolved_test_mode_def Let_def split: option.splits)
qed





section \<open>Variant creation and the registry: proofs\<close>

lemma setitem_fresh: "k \<notin> fst ` set d \<Longrightarrow> setitem k v d = d @ [(k, v)]"
  by (induction d) auto

lemma set_setitem_subset: "set (setitem k v d) \<subseteq> insert (k, v) (set d)"
  by (induction d) (auto split: if_splits)

lemma setitem_member: "(k, v) \<in> set (setitem k v d)"
  by (induction d) auto

lemma setitem_keeps_others: "(k', v') \<in> set d \<Longrightarrow> k' \<noteq> k \<Longrightarrow> (k', v') \<in> set (setitem k v d)"
  by (induction d) auto

lemma keys_setitem: "fst ` set (setitem k v d) = insert k (fst ` set d)"
proof (induction d)
  case Nil
  show ?case by simp
next
  case (Cons p d)
  obtain k' v' where p: "p = (k', v')" by (cases p)
  show ?case
  proof (cases "k' = k")
    case True
    with p show ?thesis by simp
  next
    case False
    with p Cons.IH show ?thesis by (simp add: insert_commute)
  qed
qed

lemma distinct_keys_setitem: "distinct (map fst d) \<Longrightarrow> distinct (map fst (setitem k v d))"
proof (induction d)
  case Nil
  then show ?case by simp
next
  case (Cons p d)
  obtain k' v' where p: "p = (k', v')" by (cases p)
  show ?case
  proof (cases "k' = k")
    case True
    with Cons.prems p show ?thesis by simp
  next
    case False
    have "k' \<notin> fst ` set (setitem k v d)"
      using Cons.prems p False by (simp add: keys_setitem)
    with Cons p False show ?thesis by simp
  qed
qed

lemma init_Experiment_eval:
  "init_Experiment f d c ol nm root s =
     (length (heap s),
      \<lparr>heap = heap s @ [\<lparr>name = nm, func = f, display_function = d, one_liner_results = ol,
                          comparison_function = c, variants = [], exp_notes = [], is_root = root\<rparr>],
       library = (if root then library s else setitem nm (length (heap s)) (library s))\<rparr>)"
  by (simp add: init_Experiment_def register_experiment_def Let_def)

lemma create_variant_success:
  assumes "length args \<le> 1"
    and "variant_name str args kwargs \<notin> fst ` set (variants (heap s ! self))"
    and "self < length (heap s)"
  shows "create_experiment_variant str self args kwargs root s =
     (Inr (length (heap s)),
      \<lparr>heap = (heap s @ [child_of (heap s ! self) (variant_name str args kwargs) kwargs root])
                [self := (heap s ! self)
                   \<lparr>variants := variants (heap s ! self)
                       @ [(variant_name str args kwargs, length (heap s))]\<rparr>],
       library = (if root then library s
                  else setitem (name (heap s ! self) @ ''.'' @ variant_name str args kwargs)
                         (length (heap s)) (library s))\<rparr>)"
proof -
  have a: "\<not> (length args \<noteq> 0 \<and> length args \<noteq> 1)"
    using assms(1) by arith
  show ?thesis
    unfolding create_experiment_variant_def init_Experiment_eval
    using a assms(2,3)
    by (simp add: keys_def child_of_def setitem_fresh nth_append Let_def)
qed

lemma create_variant_arity:
  assumes "1 < length args"
  shows "create_experiment_variant str self args kwargs root s = (Inl InvalidArityError, s)"
  using assms by (auto simp: create_experiment_variant_def)

lemma create_variant_duplicate:
  assumes "length args \<le> 1"
    and "variant_name str args kwargs \<in> set (keys (variants (heap s ! self)))"
  shows "create_experiment_variant str self args kwargs root s = (Inl DuplicateVariantError, s)"
proof -
  have "\<not> (length args \<noteq> 0 \<and> length args \<noteq> 1)"
    using assms(1) by arith
  with assms(2) show ?thesis
    by (simp add: create_experiment_variant_def)
qed

lemma create_variant_Inr:
  assumes "create_experiment_variant str self args kwargs root s = (Inr r, s')"
  shows "length args \<le> 1 \<and> variant_name str args kwargs \<notin> fst ` set (variants (heap s ! self))"
proof -
  have "length args \<le> 1"
    using assms create_variant_arity[of args str self kwargs root s] by (cases "1 < length args") auto
  moreover have "variant_name str args kwargs \<notin> fst ` set (variants (heap s ! self))"
    using assms create_variant_duplicate[of args str kwargs s self root] \<open>length args \<le> 1\<close>
    by (auto simp: keys_def)
  ultimately show ?thesis by simp
qed

lemmas exec_simps =
  add_variant_def add_root_variant_def create_experiment_variant_def init_Experiment_def
  register_experiment_def variant_name_def keys_def Let_def

lemmas name_simps =
  kwargs_to_experiment_name_def getitem_def str_int_def str_nat.simps digit_def

lemma only_E_eval:
  "only_E = \<lparr>heap = [node ''E'' (returning 42) [] False], library = [(''E'', 0)]\<rparr>"
  by (simp add: only_E_def node_def empty_state_def exec_simps)

lemma with_big_a_eval:
  "with_big_a =
     \<lparr>heap = [node ''E'' (returning 42) [(''big_a'', 1)] False,
              node ''E.big_a'' (partial (returning 42) [(''a'', PyInt 10000)]) [] False],
      library = [(''E'', 0), (''E.big_a'', 1)]\<rparr>"
  by (simp add: with_big_a_def only_E_eval node_def exec_simps)

lemma two_variants_eval:
  "two_variants =
     \<lparr>heap = [node ''E'' (returning 42) [(''big_a'', 1), (''a=10000'', 2)] False,
              node ''E.big_a'' (partial (returning 42) [(''a'', PyInt 10000)]) [] False,
              node ''E.a=10000'' (partial (returning 42) [(''a'', PyInt 10000)]) [] False],
      library = [(''E'', 0), (''E.big_a'', 1), (''E.a=10000'', 2)]\<rparr>"
  by (simp add: two_variants_def with_big_a_eval node_def exec_simps name_simps)

text \<open>
  Claim C6. Variant creation with more than one positional argument fails with the arity
  error, and with at most one positional argument and a resolved name that is already a
  key of the parent's variant map it fails with the duplicate error, for \<open>add_variant\<close>
  and for \<open>add_root_variant\<close> alike; in both cases the whole state, and with it the
  parent's variant map, is what it was.
\<close>

theorem variant_creation_rejects_arity_and_duplicates:
  "(1 < length args \<longrightarrow>
      add_variant str self args kwargs s = (Inl InvalidArityError, s)
    \<and> add_root_variant str self args kwargs s = (Inl InvalidArityError, s))
   \<and> (length args \<le> 1 \<and> variant_name str args kwargs \<in> set (keys (variants (heap s ! self))) \<longrightarrow>
      add_variant str self args kwargs s = (Inl DuplicateVariantError, s)
    \<and> add_root_variant str self args kwargs s = (Inl DuplicateVariantError, s))"
  unfolding add_variant_def add_root_variant_def
  using create_variant_arity create_variant_duplicate by blast

theorem variant_creation_rejects_arity_and_duplicates_witness:
  "add_variant str_pyval 0 [''x'', ''y''] [] two_variants = (Inl InvalidArityError, two_variants)
   \<and> add_root_variant str_pyval 0 [''x'', ''y''] [] two_variants = (Inl InvalidArityError, two_variants)
   \<and> add_variant str_pyval 0 [''big_a''] [] two_variants = (Inl DuplicateVariantError, two_variants)
   \<and> add_root_variant str_pyval 0 [] [(''a'', PyInt 10000)] two_variants
       = (Inl DuplicateVariantError, two_variants)
   \<and> map fst (variants (heap two_variants ! 0)) = [''big_a'', ''a=10000'']"
proof -
  have v: "variants (heap two_variants ! 0) = [(''big_a'', 1), (''a=10000'', 2)]"
    by (simp add: two_variants_eval node_def)
  have n: "variant_name str_pyval [] [(''a'', PyInt 10000)] = ''a=10000''"
    by (simp add: variant_name_def name_simps keys_def)
  have a: "1 < length [''x'', ''y'']"
    by simp
  have b: "length [''big_a''] \<le> 1
      \<and> variant_name str_pyval [''big_a''] [] \<in> set (keys (variants (heap two_variants ! 0)))"
    by (simp add: v variant_name_def keys_def)
  have c: "length ([] :: string list) \<le> 1
      \<and> variant_name str_pyval [] [(''a'', PyInt 10000)] \<in> set (keys (variants (heap two_variants ! 0)))"
    by (simp add: v n keys_def)
  from variant_creation_rejects_arity_and_duplicates
         [of "[''x'', ''y'']" str_pyval 0 "[]" two_variants, THEN conjunct1, rule_format, OF a]
       variant_creation_rejects_arity_and_duplicates
         [of "[''big_a'']" str_pyval 0 "[]" two_variants, THEN conjunct2, rule_format, OF b]
       variant_creation_rejects_arity_and_duplicates
         [of "[]" str_pyval 0 "[(''a'', PyInt 10000)]" two_variants, THEN conjunct2, rule_format, OF c]
  show ?thesis
    by (simp add: v)
qed

text \<open>
  Where the block only adds entries at the end of the library, which is what a
  registration under a name that is not yet a key does, the scope yields exactly the
  added objects, none or many.
\<close>

lemma capture_yields_appended:
  assumes "library (body s) = library s @ new"
  shows "fst (capture_created_experiments body s) = map snd new"
  using assms by (simp add: capture_created_experiments_def)

lemma register_fresh_appends:
  assumes "name (heap s ! ex) \<notin> fst ` set (library s)"
  shows "library (register_experiment ex s) = library s @ [(name (heap s ! ex), ex)]"
  using assms by (simp add: register_experiment_def setitem_fresh)

text \<open>
  Claim C9, at the input where it fails. The registry holds \<open>E\<close>, object 0. Inside the
  scope an experiment named \<open>E\<close> is defined again: the new object 1 is registered and
  takes the place of object 0 under the key \<open>E\<close>, so the library is as long as at scope
  entry and the slice \<open>values()[current_len:]\<close> is empty: the scope yields nothing.
\<close>

theorem capture_misses_redefined_experiment:
  "library only_E = [(''E'', 0)]
   \<and> library (exec str_pyval (Define ''E'' (returning 7) False) only_E) = [(''E'', 1)]
   \<and> fst (capture_created_experiments (exec str_pyval (Define ''E'' (returning 7) False)) only_E) = []"
  by (simp add: capture_created_experiments_def only_E_eval exec_simps)

subsection \<open>Well-formedness is kept\<close>

lemma init_fst: "fst (init_Experiment f d c ol nm root s) = length (heap s)"
  by (simp add: init_Experiment_eval)

lemma init_length: "length (heap (snd (init_Experiment f d c ol nm root s))) = Suc (length (heap s))"
  by (simp add: init_Experiment_eval)

lemma init_old:
  "a < length (heap s) \<Longrightarrow> heap (snd (init_Experiment f d c ol nm root s)) ! a = heap s ! a"
  by (simp add: init_Experiment_eval nth_append)

lemma init_new:
  "heap (snd (init_Experiment f d c ol nm root s)) ! length (heap s) =
     \<lparr>name = nm, func = f, display_function = d, one_liner_results = ol,
      comparison_function = c, variants = [], exp_notes = [], is_root = root\<rparr>"
  by (simp add: init_Experiment_eval)

lemma init_library:
  "set (library (snd (init_Experiment f d c ol nm root s)))
     \<subseteq> (if root then set (library s) else insert (nm, length (heap s)) (set (library s)))"
  using set_setitem_subset[of nm "length (heap s)" "library s"]
  by (simp add: init_Experiment_eval)

lemma create_as_link:
  assumes "create_experiment_variant str self args kwargs root s = (Inr r, s')"
  shows "r = length (heap s)
       \<and> s' = link self (variant_name str args kwargs) (length (heap s))
                (snd (init_Experiment (partial (func (heap s ! self)) kwargs)
                       (display_function (heap s ! self)) (display_function (heap s ! self))
                       (display_function (heap s ! self))
                       (name (heap s ! self) @ ''.'' @ variant_name str args kwargs) root s))"
  using assms
  by (auto simp: create_experiment_variant_def Let_def link_def init_Experiment_eval
      split: if_splits)

lemma create_failure:
  assumes "create_experiment_variant str self args kwargs root s = (Inl e, s')"
  shows "s' = s"
  using assms
  by (auto simp: create_experiment_variant_def Let_def split: if_splits prod.splits)

lemma wf_init:
  assumes "wf_state s"
  shows "wf_state (snd (init_Experiment f d c ol nm root s))"
proof -
  let ?s = "snd (init_Experiment f d c ol nm root s)"
  have heap: "wf_heap (heap ?s)"
    unfolding wf_heap_def
  proof (intro allI impI)
    fix a assume "a < length (heap ?s)"
    then have "a < length (heap s) \<or> a = length (heap s)"
      by (auto simp: init_length)
    then show "\<forall>(n, c)\<in>set (variants (heap ?s ! a)). a < c \<and> c < length (heap ?s)"
    proof
      assume a: "a < length (heap s)"
      with assms have "\<forall>(n, c)\<in>set (variants (heap s ! a)). a < c \<and> c < length (heap s)"
        by (simp add: wf_state_def wf_heap_def)
      with a show ?thesis
        by (auto simp: init_old init_length)
    next
      assume "a = length (heap s)"
      then show ?thesis by (simp add: init_new)
    qed
  qed
  have lib: "\<forall>(n, a)\<in>set (library ?s).
      a < length (heap ?s) \<and> \<not> is_root (heap ?s ! a) \<and> name (heap ?s ! a) = n"
  proof (clarify)
    fix n a assume m: "(n, a) \<in> set (library ?s)"
    show "a < length (heap ?s) \<and> \<not> is_root (heap ?s ! a) \<and> name (heap ?s ! a) = n"
    proof (cases "(n, a) \<in> set (library s)")
      case True
      with assms have "a < length (heap s) \<and> \<not> is_root (heap s ! a) \<and> name (heap s ! a) = n"
        by (auto simp: wf_state_def)
      then show ?thesis by (simp add: init_old init_length)
    next
      case False
      with m init_library[of f d c ol nm root s]
      have "\<not> root \<and> a = length (heap s) \<and> n = nm"
        by (auto split: if_splits)
      then show ?thesis by (simp add: init_new init_length)
    qed
  qed
  from heap lib show ?thesis by (simp add: wf_state_def)
qed

lemma link_length: "length (heap (link self nm ex s)) = length (heap s)"
  by (simp add: link_def)

lemma link_library: "library (link self nm ex s) = library s"
  by (simp add: link_def)

lemma link_nth:
  "a < length (heap s) \<Longrightarrow>
   heap (link self nm ex s) ! a =
     (if a = self then (heap s ! self)\<lparr>variants := setitem nm ex (variants (heap s ! self))\<rparr>
      else heap s ! a)"
  by (simp add: link_def nth_list_update)

lemma wf_link:
  assumes "wf_state s" and "self < ex" and "ex < length (heap s)"
  shows "wf_state (link self nm ex s)"
proof -
  let ?s = "link self nm ex s"
  have heap: "wf_heap (heap ?s)"
    unfolding wf_heap_def
  proof (intro allI impI)
    fix a assume a: "a < length (heap ?s)"
    then have a': "a < length (heap s)" by (simp add: link_length)
    with assms(1) have old: "\<forall>(n, c)\<in>set (variants (heap s ! a)). a < c \<and> c < length (heap s)"
      by (simp add: wf_state_def wf_heap_def)
    show "\<forall>(n, c)\<in>set (variants (heap ?s ! a)). a < c \<and> c < length (heap ?s)"
    proof (cases "a = self")
      case True
      have "set (variants (heap ?s ! a)) \<subseteq> insert (nm, ex) (set (variants (heap s ! a)))"
        using True a' set_setitem_subset[of nm ex "variants (heap s ! self)"]
        by (simp add: link_nth)
      with old True assms(2,3) show ?thesis
        by (auto simp: link_length)
    next
      case False
      with old a' show ?thesis by (simp add: link_nth link_length)
    qed
  qed
  have lib: "\<forall>(n, a)\<in>set (library ?s).
      a < length (heap ?s) \<and> \<not> is_root (heap ?s ! a) \<and> name (heap ?s ! a) = n"
  proof (clarify)
    fix n a assume "(n, a) \<in> set (library ?s)"
    with assms(1) have a: "a < length (heap s) \<and> \<not> is_root (heap s ! a) \<and> name (heap s ! a) = n"
      by (auto simp: wf_state_def link_library)
    then show "a < length (heap ?s) \<and> \<not> is_root (heap ?s ! a) \<and> name (heap ?s ! a) = n"
      by (auto simp: link_length link_nth)
  qed
  from heap lib show ?thesis by (simp add: wf_state_def)
qed

lemma wf_create:
  assumes "wf_state s" and "self < length (heap s)"
  shows "wf_state (snd (create_experiment_variant str self args kwargs root s))"
proof (cases "create_experiment_variant str self args kwargs root s")
  case (Pair res s')
  show ?thesis
  proof (cases res)
    case (Inl e)
    with Pair assms(1) create_failure[of str self args kwargs root s e s'] show ?thesis
      by simp
  next
    case (Inr r)
    with Pair create_as_link[of str self args kwargs root s r s']
    obtain f d c ol nm' where s': "s' = link self (variant_name str args kwargs) (length (heap s))
        (snd (init_Experiment f d c ol nm' root s))"
      by blast
    have "wf_state s'"
      unfolding s' using assms by (intro wf_link wf_init) (simp_all add: init_length)
    with Pair show ?thesis by simp
  qed
qed

lemma wf_empty: "wf_state empty_state"
  by (simp add: wf_state_def wf_heap_def empty_state_def)

lemma wf_exec:
  assumes "wf_state s"
  shows "wf_state (exec str c s)"
proof (cases c)
  case (Define nm f root)
  with assms show ?thesis by (simp add: wf_init)
next
  case (AddVariant self args kwargs)
  with assms show ?thesis by (simp add: add_variant_def wf_create)
next
  case (AddRootVariant self args kwargs)
  with assms show ?thesis by (simp add: add_root_variant_def wf_create)
next
  case ClearAll
  with assms show ?thesis by (simp add: clear_all_experiments_def wf_state_def)
qed

lemma wf_exec_all:
  assumes "wf_state s"
  shows "wf_state (exec_all str cmds s)"
  using assms unfolding exec_all_def
  by (induction cmds arbitrary: s) (simp_all add: wf_exec)

subsection \<open>Later states extend earlier ones\<close>

lemma extends_refl: "extends s s"
  by (simp add: extends_def)

lemma extends_trans:
  assumes "extends s t" and "extends t u"
  shows "extends s u"
  unfolding extends_def
proof (rule conjI, goal_cases)
  case 1
  show "length (heap s) \<le> length (heap u)"
    using assms by (simp add: extends_def)
next
  case 2
  show ?case
  proof (intro allI impI)
  fix a assume a: "a < length (heap s)"
  then have a': "a < length (heap t)"
    using assms(1) by (simp add: extends_def)
  from a assms(1) have 1: "name (heap t ! a) = name (heap s ! a)"
    "is_root (heap t ! a) = is_root (heap s ! a)"
    "set (variants (heap s ! a)) \<subseteq> set (variants (heap t ! a))"
    by (simp_all add: extends_def)
  from a' assms(2) have 2: "name (heap u ! a) = name (heap t ! a)"
    "is_root (heap u ! a) = is_root (heap t ! a)"
    "set (variants (heap t ! a)) \<subseteq> set (variants (heap u ! a))"
    by (simp_all add: extends_def)
  from 1 2 show "name (heap u ! a) = name (heap s ! a)
      \<and> is_root (heap u ! a) = is_root (heap s ! a)
      \<and> set (variants (heap s ! a)) \<subseteq> set (variants (heap u ! a))"
    by auto
  qed
qed

lemma extends_init: "extends s (snd (init_Experiment f d c ol nm root s))"
  by (simp add: extends_def init_length init_old)

lemma extends_link:
  assumes "nm \<notin> fst ` set (variants (heap s ! self))"
  shows "extends s (link self nm ex s)"
  unfolding extends_def
proof (rule conjI, goal_cases)
  case 1
  show "length (heap s) \<le> length (heap (link self nm ex s))"
    by (simp add: link_length)
next
  case 2
  show ?case
  proof (intro allI impI)
    fix a assume a: "a < length (heap s)"
    show "name (heap (link self nm ex s) ! a) = name (heap s ! a)
        \<and> is_root (heap (link self nm ex s) ! a) = is_root (heap s ! a)
        \<and> set (variants (heap s ! a)) \<subseteq> set (variants (heap (link self nm ex s) ! a))"
      using a assms by (auto simp: link_nth setitem_fresh)
  qed
qed

lemma create_success_state:
  assumes "create_experiment_variant str self args kwargs root s = (Inr r, s')"
    and "self < length (heap s)"
  shows "r = length (heap s) \<and> extends s s' \<and> length (heap s') = Suc (length (heap s))
       \<and> is_root (heap s' ! r) = root
       \<and> (variant_name str args kwargs, r) \<in> set (variants (heap s' ! self))"
proof -
  let ?nm = "variant_name str args kwargs"
  from create_as_link[OF assms(1)] obtain f d c ol nm' where
    r: "r = length (heap s)" and
    s': "s' = link self ?nm (length (heap s)) (snd (init_Experiment f d c ol nm' root s))"
    by blast
  let ?s1 = "snd (init_Experiment f d c ol nm' root s)"
  have fresh: "?nm \<notin> fst ` set (variants (heap ?s1 ! self))"
    using create_variant_Inr[OF assms(1)] assms(2) by (simp add: init_old)
  have "extends ?s1 s'"
    unfolding s' using fresh by (rule extends_link)
  then have e: "extends s s'"
    using extends_init extends_trans by blast
  have l: "length (heap s') = Suc (length (heap s))"
    by (simp add: s' link_length init_length)
  have ro: "is_root (heap s' ! r) = root"
    using assms(2) by (simp add: s' r link_nth init_length init_new)
  have m: "(?nm, r) \<in> set (variants (heap s' ! self))"
    using assms(2) by (simp add: s' r link_nth init_length setitem_member)
  from r e l ro m show ?thesis by simp
qed

lemma extends_create:
  assumes "self < length (heap s)"
  shows "extends s (snd (create_experiment_variant str self args kwargs root s))"
proof (cases "create_experiment_variant str self args kwargs root s")
  case (Pair res s')
  show ?thesis
  proof (cases res)
    case (Inl e)
    with Pair create_failure[of str self args kwargs root s e s'] show ?thesis
      by (simp add: extends_refl)
  next
    case (Inr r)
    with Pair create_success_state[of str self args kwargs root s r s'] assms show ?thesis
      by simp
  qed
qed

lemma extends_exec: "extends s (exec str c s)"
proof (cases c)
  case (Define nm f root)
  then show ?thesis by (simp add: extends_init)
next
  case (AddVariant self args kwargs)
  then show ?thesis by (simp add: add_variant_def extends_create extends_refl)
next
  case (AddRootVariant self args kwargs)
  then show ?thesis by (simp add: add_root_variant_def extends_create extends_refl)
next
  case ClearAll
  then show ?thesis by (simp add: clear_all_experiments_def extends_def)
qed

lemma extends_exec_all: "extends s (exec_all str cmds s)"
  unfolding exec_all_def
proof (induction cmds arbitrary: s)
  case Nil
  show ?case by (simp add: extends_refl)
next
  case (Cons c cmds)
  have "extends s (exec str c s)" by (rule extends_exec)
  moreover have "extends (exec str c s) (fold (exec str) cmds (exec str c s))" by (rule Cons.IH)
  ultimately show ?case using extends_trans by fastforce
qed

subsection \<open>The walk over the variant tree\<close>

lemma collect_acc: "collect f cs acc = Some r \<Longrightarrow> set acc \<subseteq> set r"
proof (induction cs arbitrary: acc)
  case Nil
  then show ?case by simp
next
  case (Cons p cs)
  obtain n c where p: "p = (n, c)" by (cases p)
  from Cons.prems p obtain ws where "f c = Some ws" and "collect f cs (acc @ ws) = Some r"
    by (auto split: option.splits)
  with Cons.IH[of "acc @ ws"] show ?case by simp
qed

lemma collect_child:
  "collect f cs acc = Some r \<Longrightarrow> (n, c) \<in> set cs \<Longrightarrow> \<exists>ws. f c = Some ws \<and> set ws \<subseteq> set r"
proof (induction cs arbitrary: acc)
  case Nil
  then show ?case by simp
next
  case (Cons p cs)
  obtain n' c' where p: "p = (n', c')" by (cases p)
  from Cons.prems(1) p obtain ws where ws: "f c' = Some ws" and rest: "collect f cs (acc @ ws) = Some r"
    by (auto split: option.splits)
  show ?case
  proof (cases "(n, c) = (n', c')")
    case True
    with ws collect_acc[OF rest] show ?thesis by auto
  next
    case False
    with Cons.prems(2) p have "(n, c) \<in> set cs" by auto
    with Cons.IH[OF rest] show ?thesis by simp
  qed
qed

lemma collect_members:
  "collect f cs acc = Some r \<Longrightarrow> v \<in> set r \<Longrightarrow>
     v \<in> set acc \<or> (\<exists>n c ws. (n, c) \<in> set cs \<and> f c = Some ws \<and> v \<in> set ws)"
proof (induction cs arbitrary: acc)
  case Nil
  then show ?case by simp
next
  case (Cons p cs)
  obtain n' c' where p: "p = (n', c')" by (cases p)
  from Cons.prems(1) p obtain ws where ws: "f c' = Some ws" and rest: "collect f cs (acc @ ws) = Some r"
    by (auto split: option.splits)
  from Cons.IH[OF rest Cons.prems(2)] ws p show ?case
    by auto
qed

lemma collect_returns:
  "(\<And>n c. (n, c) \<in> set cs \<Longrightarrow> \<exists>ws. f c = Some ws) \<Longrightarrow> \<exists>r. collect f cs acc = Some r"
proof (induction cs arbitrary: acc)
  case Nil
  show ?case by simp
next
  case (Cons p cs)
  obtain n' c' where p: "p = (n', c')" by (cases p)
  from Cons.prems[of n' c'] p obtain ws where ws: "f c' = Some ws" by auto
  have "\<exists>ws. f c = Some ws" if "(n, c) \<in> set cs" for n c
    using Cons.prems[of n c] that by simp
  then have "\<exists>r. collect f cs (acc @ ws) = Some r"
    by (rule Cons.IH)
  with ws p show ?case by simp
qed

lemma get_all_variants_returns:
  assumes "wf_heap h" and "self < length h" and "length h - self \<le> fuel"
  shows "\<exists>vs. get_all_variants fuel h include_roots include_self self = Some vs"
  using assms(2,3)
proof (induction fuel arbitrary: self include_self)
  case 0
  then show ?case by simp
next
  case (Suc fuel)
  have "\<exists>ws. get_all_variants fuel h include_roots True c = Some ws"
    if "(n, c) \<in> set (variants (h ! self))" for n c
  proof -
    from that assms(1) Suc.prems(1) have "self < c \<and> c < length h"
      by (auto simp: wf_heap_def)
    with Suc.prems(2) show ?thesis
      by (intro Suc.IH) auto
  qed
  then show ?case
    by (simp add: collect_returns)
qed

lemma all_variants_returns:
  assumes "wf_state s" and "self < length (heap s)"
  shows "\<exists>vs. all_variants s include_roots include_self self = Some vs"
  unfolding all_variants_def
  using assms by (intro get_all_variants_returns) (simp_all add: wf_state_def)

lemma get_all_variants_members:
  "get_all_variants fuel h include_roots include_self self = Some vs \<Longrightarrow> v \<in> set vs \<Longrightarrow>
     include_roots \<or> \<not> is_root (h ! v)"
proof (induction fuel arbitrary: self include_self vs)
  case 0
  then show ?case by simp
next
  case (Suc fuel)
  from Suc.prems have c: "collect (get_all_variants fuel h include_roots True) (variants (h ! self))
      (if include_self \<and> (\<not> is_root (h ! self) \<or> include_roots) then [self] else []) = Some vs"
    by simp
  from collect_members[OF c Suc.prems(2)] show ?case
  proof
    assume "v \<in> set (if include_self \<and> (\<not> is_root (h ! self) \<or> include_roots) then [self] else [])"
    then show ?thesis by (auto split: if_splits)
  next
    assume "\<exists>n c ws. (n, c) \<in> set (variants (h ! self))
        \<and> get_all_variants fuel h include_roots True c = Some ws \<and> v \<in> set ws"
    then show ?thesis using Suc.IH by blast
  qed
qed

lemma get_all_variants_self:
  "get_all_variants fuel h True True c = Some ws \<Longrightarrow> c \<in> set ws"
proof (cases fuel)
  case 0
  assume "get_all_variants fuel h True True c = Some ws"
  with 0 show ?thesis by simp
next
  case (Suc k)
  assume "get_all_variants fuel h True True c = Some ws"
  with Suc have "collect (get_all_variants k h True True) (variants (h ! c)) [c] = Some ws"
    by simp
  from collect_acc[OF this] show ?thesis by simp
qed

lemma get_all_variants_child:
  assumes "(n, c) \<in> set (variants (h ! p))"
    and "get_all_variants fuel h True include_self p = Some vs"
  shows "c \<in> set vs"
proof (cases fuel)
  case 0
  with assms(2) show ?thesis by simp
next
  case (Suc k)
  with assms(2) have "collect (get_all_variants k h True True) (variants (h ! p))
      (if include_self \<and> (\<not> is_root (h ! p) \<or> True) then [p] else []) = Some vs"
    by simp
  from collect_child[OF this assms(1)] obtain ws where
    "get_all_variants k h True True c = Some ws" and "set ws \<subseteq> set vs"
    by blast
  with get_all_variants_self show ?thesis by blast
qed

subsection \<open>Root variants\<close>

lemma root_ab_eval:
  "root_ab =
     \<lparr>heap = [node ''E'' (returning 42) [(''a.b'', 1)] False,
              node ''E.a.b'' (partial (returning 42) []) [] True],
      library = [(''E'', 0)]\<rparr>"
  by (simp add: root_ab_def only_E_eval node_def exec_simps)

lemma root_ab_a_eval:
  "root_ab_a =
     \<lparr>heap = [node ''E'' (returning 42) [(''a.b'', 1), (''a'', 2)] False,
              node ''E.a.b'' (partial (returning 42) []) [] True,
              node ''E.a'' (partial (returning 42) []) [] False],
      library = [(''E'', 0), (''E.a'', 2)]\<rparr>"
  by (simp add: root_ab_a_def root_ab_eval node_def exec_simps)

lemma root_ab_a_b_eval:
  "root_ab_a_b =
     \<lparr>heap = [node ''E'' (returning 42) [(''a.b'', 1), (''a'', 2)] False,
              node ''E.a.b'' (partial (returning 42) []) [] True,
              node ''E.a'' (partial (returning 42) []) [(''b'', 3)] False,
              node ''E.a.b'' (partial (partial (returning 42) []) []) [] False],
      library = [(''E'', 0), (''E.a'', 2), (''E.a.b'', 3)]\<rparr>"
  by (simp add: root_ab_a_b_def root_ab_a_eval node_def exec_simps)

text \<open>
  Claim C7, as stated, fails where it says that lookup by the name of the node fails: the
  registry is keyed by name, and a registered node may bear the name of a root variant.
  \<open>E.add_root_variant('a.b')\<close> creates the root object 1, named \<open>E.a.b\<close>; after
  \<open>E.add_variant('a').add_variant('b')\<close> the lookup of \<open>E.a.b\<close> succeeds, with object 3.
\<close>

theorem lookup_by_name_of_root_variant_succeeds:
  "fst (add_root_variant str_pyval 0 [''a.b''] [] only_E) = Inr 1
   \<and> root_ab_a_b = exec_all str_pyval [AddVariant 0 [''a''] [], AddVariant 2 [''b''] []]
        (snd (add_root_variant str_pyval 0 [''a.b''] [] only_E))
   \<and> name (heap root_ab_a_b ! 1) = ''E.a.b''
   \<and> is_root (heap root_ab_a_b ! 1)
   \<and> load_experiment ''E.a.b'' root_ab_a_b = Inr 3"
proof -
  have "fst (add_root_variant str_pyval 0 [''a.b''] [] only_E) = Inr 1"
    by (simp add: only_E_eval node_def exec_simps)
  moreover have "root_ab_a_b = exec_all str_pyval [AddVariant 0 [''a''] [], AddVariant 2 [''b''] []]
        (snd (add_root_variant str_pyval 0 [''a.b''] [] only_E))"
    by (simp add: exec_all_def root_ab_a_b_def root_ab_a_def root_ab_def)
  moreover have "name (heap root_ab_a_b ! 1) = ''E.a.b'' \<and> is_root (heap root_ab_a_b ! 1)"
    by (simp add: root_ab_a_b_eval node_def)
  moreover have "load_experiment ''E.a.b'' root_ab_a_b = Inr 3"
    by (simp add: root_ab_a_b_eval load_experiment_def getitem_def)
  ultimately show ?thesis by simp
qed

text \<open>
  Claim C7, amended. Let a program have reached a state in which \<open>add_root_variant\<close> on
  a node \<open>self\<close> creates the node \<open>r\<close>, and let any program run after that. Then \<open>r\<close> is
  a root and is no entry of the registry: no lookup, by its name or by any other, gives
  \<open>r\<close>, and lookup by its name fails unless a node that is not a root bears the same
  name. \<open>r\<close> is in \<open>get_all_variants(include_roots=True)\<close> of its parent, and in
  \<open>get_all_variants(include_roots=False)\<close> of no node; these walks return.
\<close>

theorem root_variant_unregistered_and_listed_with_roots:
  assumes "s = exec_all str cmds empty_state"
    and "self < length (heap s)"
    and "add_root_variant str self args kwargs s = (Inr r, s')"
    and "s'' = exec_all str cmds' s'"
  shows "is_root (heap s'' ! r)
       \<and> r \<notin> snd ` set (library s'')
       \<and> (\<forall>nm. load_experiment nm s'' \<noteq> Inr r)
       \<and> ((\<forall>a<length (heap s''). is_root (heap s'' ! a) \<or> name (heap s'' ! a) \<noteq> name (heap s'' ! r))
            \<longrightarrow> load_experiment (name (heap s'' ! r)) s''
                 = Inl (ExperimentNotFoundError (name (heap s'' ! r))))
       \<and> (\<exists>vs. all_variants s'' True False self = Some vs \<and> r \<in> set vs)
       \<and> (\<forall>q<length (heap s''). \<forall>include_self.
             \<exists>vs. all_variants s'' False include_self q = Some vs \<and> r \<notin> set vs)"
proof -
  have wf: "wf_state s"
    unfolding assms(1) by (intro wf_exec_all wf_empty)
  have c: "create_experiment_variant str self args kwargs True s = (Inr r, s')"
    using assms(3) by (simp add: add_root_variant_def)
  from create_success_state[OF c assms(2)] have
    r: "r = length (heap s)" and ext: "extends s s'" and len: "length (heap s') = Suc (length (heap s))"
    and root: "is_root (heap s' ! r)"
    and child: "(variant_name str args kwargs, r) \<in> set (variants (heap s' ! self))"
    by blast+
  have "wf_state (snd (create_experiment_variant str self args kwargs True s))"
    using wf assms(2) by (rule wf_create)
  with c have wf': "wf_state s'" by simp
  have wf'': "wf_state s''"
    unfolding assms(4) using wf' by (rule wf_exec_all)
  have ext': "extends s' s''"
    unfolding assms(4) by (rule extends_exec_all)
  have r': "r < length (heap s')" and self': "self < length (heap s')"
    using r len assms(2) by simp_all
  have root'': "is_root (heap s'' ! r)"
    using ext' r' root by (simp add: extends_def)
  have child'': "(variant_name str args kwargs, r) \<in> set (variants (heap s'' ! self))"
    using ext' self' child by (auto simp: extends_def)
  have self'': "self < length (heap s'')"
    using ext' self' by (simp add: extends_def)
  have entries: "a \<noteq> r \<and> a < length (heap s'') \<and> \<not> is_root (heap s'' ! a) \<and> name (heap s'' ! a) = nm"
    if "(nm, a) \<in> set (library s'')" for nm a
    using that wf'' root'' by (auto simp: wf_state_def)
  have unreg: "r \<notin> snd ` set (library s'')"
    using entries by force
  have lookup: "load_experiment nm s'' \<noteq> Inr r" for nm
  proof
    assume "load_experiment nm s'' = Inr r"
    then have "map_of (library s'') nm = Some r"
      by (simp add: load_experiment_def getitem_def split: option.splits)
    then have "(nm, r) \<in> set (library s'')"
      by (rule map_of_SomeD)
    with entries show False by blast
  qed
  have fails: "load_experiment (name (heap s'' ! r)) s''
      = Inl (ExperimentNotFoundError (name (heap s'' ! r)))"
    if free: "\<forall>a<length (heap s''). is_root (heap s'' ! a) \<or> name (heap s'' ! a) \<noteq> name (heap s'' ! r)"
  proof (cases "map_of (library s'') (name (heap s'' ! r))")
    case None
    then show ?thesis by (simp add: load_experiment_def getitem_def)
  next
    case (Some a)
    then have "(name (heap s'' ! r), a) \<in> set (library s'')"
      by (rule map_of_SomeD)
    with entries have "a < length (heap s'') \<and> \<not> is_root (heap s'' ! a)
        \<and> name (heap s'' ! a) = name (heap s'' ! r)"
      by blast
    with free show ?thesis by blast
  qed
  obtain vs where vs: "all_variants s'' True False self = Some vs"
    using all_variants_returns[OF wf'' self''] by blast
  then have "r \<in> set vs"
    unfolding all_variants_def using child'' by (intro get_all_variants_child)
  with vs have listed: "\<exists>vs. all_variants s'' True False self = Some vs \<and> r \<in> set vs"
    by blast
  have hidden: "\<exists>vs. all_variants s'' False include_self q = Some vs \<and> r \<notin> set vs"
    if q: "q < length (heap s'')" for q include_self
  proof -
    obtain ws where ws: "all_variants s'' False include_self q = Some ws"
      using all_variants_returns[OF wf'' q] by blast
    have "r \<notin> set ws"
      using get_all_variants_members[OF ws[unfolded all_variants_def]] root'' by blast
    with ws show ?thesis by blast
  qed
  from root'' unreg lookup fails listed hidden show ?thesis
    by blast
qed

lemma root_ab_a_b_walks:
  "all_variants root_ab_a_b True False 0 = Some [1, 2, 3]"
  "all_variants root_ab_a_b False True 0 = Some [0, 2, 3]"
  by (simp_all add: all_variants_def root_ab_a_b_eval node_def eval_nat_numeral)

theorem root_variant_unregistered_and_listed_with_roots_witness:
  "is_root (heap root_ab_a_b ! 1)
   \<and> 1 \<notin> snd ` set (library root_ab_a_b)
   \<and> load_experiment ''E.a.b'' root_ab_a_b \<noteq> Inr 1
   \<and> all_variants root_ab_a_b True False 0 = Some [1, 2, 3]
   \<and> all_variants root_ab_a_b False True 0 = Some [0, 2, 3]"
proof -
  have h1: "only_E = exec_all str_pyval [Define ''E'' (returning 42) False] empty_state"
    by (simp add: only_E_def exec_all_def)
  have h2: "0 < length (heap only_E)"
    by (simp add: only_E_eval)
  have h3: "add_root_variant str_pyval 0 [''a.b''] [] only_E = (Inr 1, root_ab)"
    by (simp add: root_ab_eval only_E_eval node_def exec_simps)
  have h4: "root_ab_a_b = exec_all str_pyval [AddVariant 0 [''a''] [], AddVariant 2 [''b''] []] root_ab"
    by (simp add: exec_all_def root_ab_a_b_def root_ab_a_def)
  from root_variant_unregistered_and_listed_with_roots [OF h1 h2 h3 h4]
  have "is_root (heap root_ab_a_b ! 1) \<and> 1 \<notin> snd ` set (library root_ab_a_b)
      \<and> (\<forall>nm. load_experiment nm root_ab_a_b \<noteq> Inr 1)"
    by blast
  with root_ab_a_b_walks show ?thesis
    by blast
qed

section \<open>The record query layer: proofs\<close>

lemma fold_setitem_keys:
  "fst ` set (fold (\<lambda>(k, v). setitem k v) items acc) = fst ` set acc \<union> fst ` set items"
proof (induction items arbitrary: acc)
  case Nil
  show ?case by simp
next
  case (Cons p items)
  obtain k v where p: "p = (k, v)" by (cases p)
  show ?case
    by (auto simp: p Cons.IH keys_setitem)
qed

lemma fold_setitem_distinct:
  "distinct (map fst acc) \<Longrightarrow> distinct (map fst (fold (\<lambda>(k, v). setitem k v) items acc))"
proof (induction items arbitrary: acc)
  case Nil
  then show ?case by simp
next
  case (Cons p items)
  obtain k v where p: "p = (k, v)" by (cases p)
  from Cons.prems have "distinct (map fst (setitem k v acc))"
    by (rule distinct_keys_setitem)
  then show ?case
    by (simp add: p Cons.IH)
qed

lemma fold_setitem_subset:
  "set (fold (\<lambda>(k, v). setitem k v) items acc) \<subseteq> set acc \<union> set items"
proof (induction items arbitrary: acc)
  case Nil
  show ?case by simp
next
  case (Cons p items)
  obtain k v where p: "p = (k, v)" by (cases p)
  have "set (fold (\<lambda>(k, v). setitem k v) items (setitem k v acc)) \<subseteq> set (setitem k v acc) \<union> set items"
    by (rule Cons.IH)
  with set_setitem_subset[of k v acc] show ?case
    by (auto simp: p)
qed

lemma fold_setitem_fresh:
  "distinct (map fst (acc @ items)) \<Longrightarrow> fold (\<lambda>(k, v). setitem k v) items acc = acc @ items"
proof (induction items arbitrary: acc)
  case Nil
  show ?case by simp
next
  case (Cons p items)
  obtain k v where p: "p = (k, v)" by (cases p)
  from Cons.prems p have fresh: "k \<notin> fst ` set acc"
    by auto
  from Cons.prems p have "distinct (map fst ((acc @ [(k, v)]) @ items))"
    by simp
  then have "fold (\<lambda>(k, v). setitem k v) items (acc @ [(k, v)]) = (acc @ [(k, v)]) @ items"
    by (rule Cons.IH)
  with fresh show ?case
    by (simp add: p setitem_fresh)
qed

lemma get_latest_record_by_name:
  "get_latest_record store e only_completed False = Inr (latest_by_name store (name e) only_completed)"
  by (simp add: get_latest_record_def get_records_def latest_by_name_def Let_def)

lemma latest_items_eval:
  "latest_items store h only_completed vs
     = Inr (map (\<lambda>ex. (name (h ! ex), latest_by_name store (name (h ! ex)) only_completed)) vs)"
  by (induction vs) (simp_all add: get_latest_record_by_name)

lemma plain_ab_eval:
  "plain_ab =
     \<lparr>heap = [node ''E'' (returning 42) [(''a.b'', 1)] False,
              node ''E.a.b'' (partial (returning 42) []) [] False],
      library = [(''E'', 0), (''E.a.b'', 1)]\<rparr>"
  by (simp add: plain_ab_def only_E_eval node_def exec_simps)

lemma plain_ab_a_eval:
  "plain_ab_a =
     \<lparr>heap = [node ''E'' (returning 42) [(''a.b'', 1), (''a'', 2)] False,
              node ''E.a.b'' (partial (returning 42) []) [] False,
              node ''E.a'' (partial (returning 42) []) [] False],
      library = [(''E'', 0), (''E.a.b'', 1), (''E.a'', 2)]\<rparr>"
  by (simp add: plain_ab_a_def plain_ab_eval node_def exec_simps)

lemma plain_ab_a_b_eval:
  "plain_ab_a_b =
     \<lparr>heap = [node ''E'' (returning 42) [(''a.b'', 1), (''a'', 2)] False,
              node ''E.a.b'' (partial (returning 42) []) [] False,
              node ''E.a'' (partial (returning 42) []) [(''b'', 3)] False,
              node ''E.a.b'' (partial (partial (returning 42) []) []) [] False],
      library = [(''E'', 0), (''E.a.b'', 3), (''E.a'', 2)]\<rparr>"
  by (simp add: plain_ab_a_b_def plain_ab_a_eval node_def exec_simps)

lemma plain_ab_a_b_walk: "all_variants plain_ab_a_b False True 0 = Some [0, 1, 2, 3]"
  by (simp add: all_variants_def plain_ab_a_b_eval node_def eval_nat_numeral)

text \<open>
  Claim C8, as stated, fails where two variants of the subtree bear the same name: the
  mapping is keyed by name. After \<open>E.add_variant('a.b')\<close> and
  \<open>E.add_variant('a').add_variant('b')\<close> the walk from \<open>E\<close> gives four nodes, named
  \<open>E\<close>, \<open>E.a.b\<close>, \<open>E.a\<close> and \<open>E.a.b\<close>, and the mapping has three entries.
\<close>

theorem variant_records_merge_equal_names:
  "plain_ab_a_b = exec_all str_pyval
       [Define ''E'' (returning 42) False, AddVariant 0 [''a.b''] [], AddVariant 0 [''a''] [],
        AddVariant 2 [''b''] []] empty_state
   \<and> all_variants plain_ab_a_b False True 0 = Some [0, 1, 2, 3]
   \<and> map (\<lambda>ex. name (heap plain_ab_a_b ! ex)) [0, 1, 2, 3] = [''E'', ''E.a.b'', ''E.a'', ''E.a.b'']
   \<and> get_variant_records no_records plain_ab_a_b 0 True True False
       = Some (Inr (LatestDict [(''E'', None), (''E.a.b'', None), (''E.a'', None)]))"
proof -
  have "plain_ab_a_b = exec_all str_pyval
       [Define ''E'' (returning 42) False, AddVariant 0 [''a.b''] [], AddVariant 0 [''a''] [],
        AddVariant 2 [''b''] []] empty_state"
    by (simp add: exec_all_def plain_ab_a_b_def plain_ab_a_def plain_ab_def only_E_def)
  moreover have "map (\<lambda>ex. name (heap plain_ab_a_b ! ex)) [0, 1, 2, 3]
      = [''E'', ''E.a.b'', ''E.a'', ''E.a.b'']"
    by (simp add: plain_ab_a_b_eval node_def)
  moreover have "get_variant_records no_records plain_ab_a_b 0 True True False
       = Some (Inr (LatestDict [(''E'', None), (''E.a.b'', None), (''E.a'', None)]))"
    unfolding get_variant_records_def plain_ab_a_b_walk latest_items_eval
    by (simp add: plain_ab_a_b_eval node_def ordered_dict_def latest_by_name_def no_records_def)
  ultimately show ?thesis
    using plain_ab_a_b_walk by simp
qed

text \<open>
  Claim C8, amended. For every node of a state that a program has reached,
  \<open>get_variant_records\<close> with \<open>only_last\<close> returns: with \<open>flat\<close>, a list without \<open>None\<close>;
  without \<open>flat\<close>, a mapping keyed by node name that has one entry per name borne by a
  node of \<open>get_all_variants(include_self=True)\<close>, its value the latest record under that
  name or \<open>None\<close>. When the names of these nodes are pairwise distinct, that is one
  entry per variant, in the order of \<open>get_all_variants(include_self=True)\<close>.
\<close>

theorem variant_records_latest_per_name:
  assumes "s = exec_all str cmds empty_state" and "self < length (heap s)"
  shows "(\<exists>rs. get_variant_records store s self only_completed True True = Some (Inr (RecordList rs))
             \<and> None \<notin> set rs)
       \<and> (\<exists>d vs. get_variant_records store s self only_completed True False = Some (Inr (LatestDict d))
             \<and> all_variants s False True self = Some vs
             \<and> distinct (map fst d)
             \<and> set (map fst d) = set (map (\<lambda>ex. name (heap s ! ex)) vs)
             \<and> (\<forall>(nm, record)\<in>set d. record = latest_by_name store nm only_completed)
             \<and> (distinct (map (\<lambda>ex. name (heap s ! ex)) vs)
                  \<longrightarrow> map fst d = map (\<lambda>ex. name (heap s ! ex)) vs))"
proof -
  have wf: "wf_state s"
    unfolding assms(1) by (intro wf_exec_all wf_empty)
  obtain vs where vs: "all_variants s False True self = Some vs"
    using all_variants_returns[OF wf assms(2)] by blast
  define items where
    "items = map (\<lambda>ex. (name (heap s ! ex), latest_by_name store (name (heap s ! ex)) only_completed)) vs"
  define d where "d = ordered_dict items"
  have names: "map fst items = map (\<lambda>ex. name (heap s ! ex)) vs"
    by (simp add: items_def comp_def)
  have flat: "get_variant_records store s self only_completed True True
      = Some (Inr (RecordList (filter (\<lambda>record. record \<noteq> None) (map snd d))))"
    by (simp add: get_variant_records_def vs latest_items_eval items_def d_def)
  have dict: "get_variant_records store s self only_completed True False = Some (Inr (LatestDict d))"
    by (simp add: get_variant_records_def vs latest_items_eval items_def d_def)
  have dist: "distinct (map fst d)"
    unfolding d_def ordered_dict_def by (rule fold_setitem_distinct) simp
  have keys: "set (map fst d) = set (map (\<lambda>ex. name (heap s ! ex)) vs)"
    using fold_setitem_keys[of items "[]"] names
    by (simp add: d_def ordered_dict_def) (metis image_set)
  have "set d \<subseteq> set items"
    using fold_setitem_subset[of items "[]"] by (simp add: d_def ordered_dict_def)
  then have vals: "\<forall>(nm, record)\<in>set d. record = latest_by_name store nm only_completed"
    by (auto simp: items_def)
  have same: "map fst d = map (\<lambda>ex. name (heap s ! ex)) vs"
    if "distinct (map (\<lambda>ex. name (heap s ! ex)) vs)"
  proof -
    from that names have "distinct (map fst ([] @ items))" by simp
    then have "d = items"
      unfolding d_def ordered_dict_def using fold_setitem_fresh[of "[]" items] by simp
    with names show ?thesis by simp
  qed
  have "None \<notin> set (filter (\<lambda>record. record \<noteq> None) (map snd d))"
    by simp
  with flat have 1: "\<exists>rs. get_variant_records store s self only_completed True True
      = Some (Inr (RecordList rs)) \<and> None \<notin> set rs"
    by blast
  from dict vs dist keys vals same show ?thesis
    using 1 by blast
qed

lemma two_variants_walk: "all_variants two_variants False True 0 = Some [0, 1, 2]"
  by (simp add: all_variants_def two_variants_eval node_def eval_nat_numeral)

theorem variant_records_latest_per_name_witness:
  "get_variant_records one_record two_variants 0 True True True
     = Some (Inr (RecordList [Some finished_run]))
   \<and> get_variant_records one_record two_variants 0 True True False
     = Some (Inr (LatestDict [(''E'', Some finished_run), (''E.big_a'', None), (''E.a=10000'', None)]))
   \<and> all_variants two_variants False True 0 = Some [0, 1, 2]
   \<and> (\<exists>rs. get_variant_records one_record two_variants 0 True True True = Some (Inr (RecordList rs))
          \<and> None \<notin> set rs)"
proof -
  have h1: "two_variants = exec_all str_pyval
      [Define ''E'' (returning 42) False, AddVariant 0 [''big_a''] [(''a'', PyInt 10000)],
       AddVariant 0 [] [(''a'', PyInt 10000)]] empty_state"
    by (simp add: exec_all_def two_variants_def with_big_a_def only_E_def)
  have h2: "0 < length (heap two_variants)"
    by (simp add: two_variants_eval)
  have l: "latest_by_name one_record ''E'' True = Some finished_run"
    "latest_by_name one_record ''E.big_a'' True = None"
    "latest_by_name one_record ''E.a=10000'' True = None"
    by (simp_all add: latest_by_name_def one_record_def finished_run_def)
  have a: "get_variant_records one_record two_variants 0 True True True
     = Some (Inr (RecordList [Some finished_run]))"
    unfolding get_variant_records_def two_variants_walk latest_items_eval
    by (simp add: two_variants_eval node_def ordered_dict_def l)
  have b: "get_variant_records one_record two_variants 0 True True False
     = Some (Inr (LatestDict [(''E'', Some finished_run), (''E.big_a'', None), (''E.a=10000'', None)]))"
    unfolding get_variant_records_def two_variants_walk latest_items_eval
    by (simp add: two_variants_eval node_def ordered_dict_def l)
  from variant_records_latest_per_name [OF h1 h2, of one_record True]
  have "\<exists>rs. get_variant_records one_record two_variants 0 True True True = Some (Inr (RecordList rs))
          \<and> None \<notin> set rs"
    by blast
  with a b two_variants_walk show ?thesis
    by blast
qed

end
